theory Spec2Isabelle
  imports Complex_Main
begin

section \<open>Pressure projection on a uniform structured grid\<close>

text \<open>
  A shallow embedding of \<^verbatim>\<open>floris/simulation/pressure_projection.py\<close>, class
  \<^verbatim>\<open>PressureField\<close>.

  Conventions of the embedding.
  \<^item> A numpy array of floats with three axes is a nested list \<open>real list list list\<close>
    (x outermost, z innermost, as in C order); one-dimensional arrays are \<open>real list\<close>.
    Arithmetic is exact (\<open>real\<close>): rounding, infinities and NaN of float64 are not
    represented, so statements that depend on a division by zero carry the hypothesis
    that the divisor is not zero.
  \<^item> Every Python exception is a value of \<open>error\<close>; a method that can raise returns
    \<open>error + 'a\<close>, with \<open>Inl\<close> the exception.
  \<^item> An elementwise operation between arrays of unequal shape is \<open>ValueError\<close> in the
    model; numpy's broadcasting of axes of size one is not represented.
  \<^item> An attribute of the instance that is \<^verbatim>\<open>None\<close> or not yet assigned is \<open>None\<close>;
    reading through it is \<open>AttributeError\<close>.
  \<^item> The plotting under \<^verbatim>\<open>DEBUG\<close> (matplotlib, files under /var/tmp) is input/output
    only and is left out; the counter \<^verbatim>\<open>Nsolves\<close> and the index \<^verbatim>\<open>khub\<close> are kept.
\<close>

subsection \<open>Errors and arrays\<close>

datatype error = AssertionError | AttributeError | IndexError | ValueError | TypeError

type_synonym arr1 = "real list"
type_synonym arr2 = "real list list"
type_synonym arr3 = "real list list list"

definition ebind :: "error + 'a \<Rightarrow> ('a \<Rightarrow> error + 'b) \<Rightarrow> error + 'b" where
  "ebind m f = (case m of Inl e \<Rightarrow> Inl e | Inr v \<Rightarrow> f v)"

text \<open>\<^verbatim>\<open>a.shape\<close> of a three-axis array.\<close>

definition shape3 :: "'a list list list \<Rightarrow> nat \<times> nat \<times> nat" where
  "shape3 a =
     (length a,
      (case a of [] \<Rightarrow> 0 | pl # _ \<Rightarrow> length pl),
      (case a of [] \<Rightarrow> 0 | pl # _ \<Rightarrow> (case pl of [] \<Rightarrow> 0 | r # _ \<Rightarrow> length r)))"

text \<open>The nested lists that are arrays of shape \<open>(nx, ny, nz)\<close>.\<close>

definition wf3 :: "nat \<times> nat \<times> nat \<Rightarrow> 'a list list list \<Rightarrow> bool" where
  "wf3 s a = (case s of (nx, ny, nz) \<Rightarrow>
     length a = nx \<and> list_all (\<lambda>pl. length pl = ny \<and> list_all (\<lambda>r. length r = nz) pl) a)"

text \<open>\<^verbatim>\<open>np.zeros(shape)\<close>.\<close>

definition zeros3 :: "nat \<times> nat \<times> nat \<Rightarrow> arr3" where
  "zeros3 s = (case s of (nx, ny, nz) \<Rightarrow> replicate nx (replicate ny (replicate nz 0)))"

text \<open>\<^verbatim>\<open>a[:,0,0]\<close>, \<^verbatim>\<open>a[0,:,0]\<close> and \<^verbatim>\<open>a[0,0,:]\<close>: an index 0 on an empty axis raises.\<close>

definition sl_x :: "arr3 \<Rightarrow> error + arr1" where
  "sl_x a = (case shape3 a of (nx, ny, nz) \<Rightarrow>
     if ny = 0 \<or> nz = 0 then Inl IndexError else Inr (map (\<lambda>pl. pl ! 0 ! 0) a))"

definition sl_y :: "arr3 \<Rightarrow> error + arr1" where
  "sl_y a = (case shape3 a of (nx, ny, nz) \<Rightarrow>
     if nx = 0 \<or> nz = 0 then Inl IndexError else Inr (map (\<lambda>r. r ! 0) (a ! 0)))"

definition sl_z :: "arr3 \<Rightarrow> error + arr1" where
  "sl_z a = (case shape3 a of (nx, ny, nz) \<Rightarrow>
     if nx = 0 \<or> ny = 0 then Inl IndexError else Inr (a ! 0 ! 0))"

text \<open>\<^verbatim>\<open>np.diff\<close> of a one-dimensional array: the consecutive differences.\<close>

definition np_diff :: "arr1 \<Rightarrow> arr1" where
  "np_diff xs = map (\<lambda>(a, b). b - a) (zip xs (tl xs))"

text \<open>\<^verbatim>\<open>np.max\<close> of a one-dimensional array; on booleans \<open>False < True\<close>.\<close>

fun np_max :: "'a::linorder list \<Rightarrow> error + 'a" where
  "np_max [] = Inl ValueError"
| "np_max (x # xs) = Inr (fold max xs x)"

text \<open>\<^verbatim>\<open>np.argmin\<close>: the first index of the least element.\<close>

fun argmin_from :: "real list \<Rightarrow> nat \<Rightarrow> nat \<Rightarrow> real \<Rightarrow> nat" where
  "argmin_from [] i best bv = best"
| "argmin_from (x # xs) i best bv =
     (if x < bv then argmin_from xs (Suc i) i x else argmin_from xs (Suc i) best bv)"

fun np_argmin :: "real list \<Rightarrow> error + nat" where
  "np_argmin [] = Inl ValueError"
| "np_argmin (x # xs) = Inr (argmin_from xs 1 0 x)"

subsection \<open>Sparse matrices in diagonal storage\<close>

text \<open>
  The result of \<^verbatim>\<open>scipy.sparse.diags\<close>: a square matrix of order \<open>dim\<close> given by its
  diagonals. The diagonal stored with offset \<open>k\<close> holds at position \<open>i\<close> the entry of row
  \<open>i\<close>, column \<open>i + k\<close> when \<open>k \<ge> 0\<close>, and of row \<open>i - k\<close>, column \<open>i\<close> when
  \<open>k < 0\<close>.
\<close>

record dia =
  dim :: nat
  bands :: "(int \<times> real list) list"

text \<open>
  \<^verbatim>\<open>diags(diagonals, offsets)\<close> without a shape: the order is taken from the first
  diagonal; a diagonal must have the length its offset leaves (or length one, which
  is spread); the offsets must be distinct.
\<close>

definition diags :: "real list list \<Rightarrow> int list \<Rightarrow> error + dia" where
  "diags diagonals offsets =
     (if diagonals = [] \<or> length diagonals \<noteq> length offsets then Inl ValueError
      else
        let m = length (hd diagonals) + nat \<bar>hd offsets\<bar> in
        if list_ex (\<lambda>(d, k). int m < \<bar>k\<bar> \<or> (length d \<noteq> m - nat \<bar>k\<bar> \<and> length d \<noteq> 1))
             (zip diagonals offsets)
        then Inl ValueError
        else if \<not> distinct offsets then Inl ValueError
        else Inr \<lparr> dim = m,
                   bands = map (\<lambda>(d, k). (k, if length d = m - nat \<bar>k\<bar> then d
                                               else replicate (m - nat \<bar>k\<bar>) (hd d)))
                             (zip diagonals offsets) \<rparr>)"

text \<open>The entry of row \<open>r\<close>, column \<open>c\<close>.\<close>

definition entry :: "dia \<Rightarrow> nat \<Rightarrow> nat \<Rightarrow> real" where
  "entry M r c = (case map_of (bands M) (int c - int r) of
                    None \<Rightarrow> 0 | Some d \<Rightarrow> d ! (min r c))"

text \<open>The product of the matrix with a vector of length \<open>dim\<close>.\<close>

definition matvec :: "dia \<Rightarrow> real list \<Rightarrow> real list" where
  "matvec M v = map (\<lambda>r. \<Sum>c \<leftarrow> [0..<dim M]. entry M r c * v ! c) [0..<dim M]"

subsection \<open>Slices of one-dimensional arrays\<close>

text \<open>\<^verbatim>\<open>a[:-k]\<close> for \<open>k \<ge> 0\<close>: since \<^verbatim>\<open>-0\<close> is \<^verbatim>\<open>0\<close>, \<^verbatim>\<open>a[:-0]\<close> is empty.\<close>

definition drop_last :: "nat \<Rightarrow> 'a list \<Rightarrow> 'a list" where
  "drop_last k xs = (if k = 0 then [] else take (length xs - k) xs)"

text \<open>\<^verbatim>\<open>range(a, b, s)\<close>; a step of zero raises.\<close>

definition range3 :: "nat \<Rightarrow> nat \<Rightarrow> nat \<Rightarrow> error + nat list" where
  "range3 a b s = (if s = 0 then Inl ValueError
                   else Inr (filter (\<lambda>i. (i - a) mod s = 0) [a..<b]))"

text \<open>\<^verbatim>\<open>a[lo:hi] -= c\<close> with \<open>0 \<le> lo\<close>.\<close>

definition slice_sub :: "nat \<Rightarrow> nat \<Rightarrow> real \<Rightarrow> arr1 \<Rightarrow> arr1" where
  "slice_sub lo hi c xs =
     map (\<lambda>j. if lo \<le> j \<and> j < hi then xs ! j - c else xs ! j) [0..<length xs]"

text \<open>\<^verbatim>\<open>a[start::step] -= c\<close> with \<open>0 \<le> start\<close>; a step of zero raises.\<close>

definition stride_sub :: "nat \<Rightarrow> nat \<Rightarrow> real \<Rightarrow> arr1 \<Rightarrow> error + arr1" where
  "stride_sub start step c xs =
     (if step = 0 then Inl ValueError
      else Inr (map (\<lambda>j. if start \<le> j \<and> (j - start) mod step = 0 then xs ! j - c else xs ! j)
                  [0..<length xs]))"

subsection \<open>The instance and its construction\<close>

record flow_field =
  ff_x :: arr3
  ff_y :: arr3
  ff_z :: arr3

record PressureField =
  self_x :: arr3
  self_y :: arr3
  self_z :: arr3
  self_Nx :: nat
  self_Ny :: nat
  self_Nz :: nat
  self_N :: nat
  self_x1 :: arr1
  self_y1 :: arr1
  self_z1 :: arr1
  self_dx :: real
  self_dy :: real
  self_dz :: real
  self_LHS :: dia
  self_RHS :: "arr1 option"
  self_Nsolves :: nat
  self_khub :: nat
  self_u0 :: "arr3 option"
  self_v0 :: "arr3 option"
  self_w0 :: "arr3 option"
  self_p :: "arr3 option"
  self_u :: "arr3 option"
  self_v :: "arr3 option"
  self_w :: "arr3 option"

text \<open>
  \<^verbatim>\<open>assert np.max(np.abs(d - d[0]) < 1e-8)\<close>: the comparison is inside \<^verbatim>\<open>np.max\<close>, so
  the maximum is taken over the array of booleans.
\<close>

definition assert_spacing :: "arr1 \<Rightarrow> error + unit" where
  "assert_spacing d =
     (case d of [] \<Rightarrow> Inl IndexError
      | d0 # _ \<Rightarrow>
          ebind (np_max (map (\<lambda>v. \<bar>v - d0\<bar> < 1 / 10 ^ 8) d))
            (\<lambda>ok. if ok then Inr () else Inl AssertionError))"

text \<open>
  \<^verbatim>\<open>_setup_LHS\<close>. It reads \<^verbatim>\<open>N, Ny, Nz, dx, dy, dz\<close> of the instance and assigns
  \<^verbatim>\<open>self.LHS\<close>; here it returns the matrix. In the loop \<open>i - offy\<close> is never negative:
  the loop runs only when \<open>offx = Ny * Nz > 0\<close>, hence \<open>i \<ge> offx \<ge> offy\<close>.
\<close>

definition setup_LHS :: "nat \<Rightarrow> nat \<Rightarrow> nat \<Rightarrow> real \<Rightarrow> real \<Rightarrow> real \<Rightarrow> error + dia" where
  "setup_LHS N Ny Nz dx dy dz =
     (let ones = replicate N (1::real);
          diag = map (\<lambda>o1. - 2 * o1 / dx ^ 2 - 2 * o1 / dy ^ 2 - 2 * o1 / dz ^ 2) ones;
          offx = Ny * Nz;
          offdiagx = map (\<lambda>o1. o1 / dx ^ 2) (drop_last offx ones);
          offy = Nz;
          offdiagy0 = map (\<lambda>o1. o1 / dy ^ 2) (drop_last offy ones)
      in ebind (range3 offx (length offdiagy0) offx) (\<lambda>is.
           let offdiagy = fold (\<lambda>i. slice_sub (i - offy) i (1 / dy ^ 2)) is offdiagy0;
               offz = 1;
               offdiagz0 = map (\<lambda>o1. o1 / dz ^ 2) (drop_last offz ones)
           in ebind (stride_sub (Nz - 1) Nz (1 / dz ^ 2) offdiagz0) (\<lambda>offdiagz.
                diags [offdiagx, offdiagy, offdiagz, diag, offdiagz, offdiagy, offdiagx]
                      [- int offx, - int offy, - int offz, 0, int offz, int offy, int offx])))"

text \<open>\<^verbatim>\<open>__init__\<close>.\<close>

definition init :: "flow_field \<Rightarrow> error + PressureField" where
  "init flow_field =
     (let x = ff_x flow_field; y = ff_y flow_field; z = ff_z flow_field in
      case shape3 x of (Nx, Ny, Nz) \<Rightarrow>
      let N = Nx * Ny * Nz in
      ebind (sl_x x) (\<lambda>x1.
      ebind (sl_y y) (\<lambda>y1.
      ebind (sl_z z) (\<lambda>z1.
      let dx = np_diff x1; dy = np_diff y1; dz = np_diff z1 in
      ebind (assert_spacing dx) (\<lambda>_.
      ebind (assert_spacing dy) (\<lambda>_.
      ebind (assert_spacing dz) (\<lambda>_.
      ebind (setup_LHS N Ny Nz (hd dx) (hd dy) (hd dz)) (\<lambda>LHS.
      ebind (np_argmin (map (\<lambda>zk. \<bar>zk - 90\<bar>) z1)) (\<lambda>khub.
      Inr \<lparr> self_x = x, self_y = y, self_z = z,
            self_Nx = Nx, self_Ny = Ny, self_Nz = Nz, self_N = N,
            self_x1 = x1, self_y1 = y1, self_z1 = z1,
            self_dx = hd dx, self_dy = hd dy, self_dz = hd dz,
            self_LHS = LHS, self_RHS = None,
            self_Nsolves = 0, self_khub = khub,
            self_u0 = None, self_v0 = None, self_w0 = None,
            self_p = None, self_u = None, self_v = None, self_w = None \<rparr>)))))))))"

subsection \<open>Finite differences\<close>

text \<open>
  The elementwise \<^verbatim>\<open>(a - b) / h\<close> on scalars, rows and planes.
\<close>

definition dq0 :: "real \<Rightarrow> real \<Rightarrow> real \<Rightarrow> real" where
  "dq0 h a b = (a - b) / h"

definition dq1 :: "real \<Rightarrow> arr1 \<Rightarrow> arr1 \<Rightarrow> arr1" where
  "dq1 h a b = map (\<lambda>(p, q). dq0 h p q) (zip a b)"

definition dq2 :: "real \<Rightarrow> arr2 \<Rightarrow> arr2 \<Rightarrow> arr2" where
  "dq2 h a b = map (\<lambda>(p, q). dq1 h p q) (zip a b)"

text \<open>\<^verbatim>\<open>(f[2:] - f[:-2]) / (2*h)\<close> along the outer axis of \<open>f\<close>.\<close>

definition central :: "(real \<Rightarrow> 'a \<Rightarrow> 'a \<Rightarrow> 'a) \<Rightarrow> real \<Rightarrow> 'a list \<Rightarrow> 'a list" where
  "central dq h f = map (\<lambda>i. dq (2 * h) (f ! (i + 2)) (f ! i)) [0..<length f - 2]"

text \<open>\<^verbatim>\<open>g[1:-1] = vals\<close> and \<^verbatim>\<open>g[1:-1] -= vals\<close> along the outer axis of \<open>g\<close>.\<close>

definition assign_mid :: "'a list \<Rightarrow> 'a list \<Rightarrow> 'a list" where
  "assign_mid g vals =
     map (\<lambda>i. if 1 \<le> i \<and> i + 1 < length g then vals ! (i - 1) else g ! i) [0..<length g]"

definition sub_mid :: "('a \<Rightarrow> 'a \<Rightarrow> 'a) \<Rightarrow> 'a list \<Rightarrow> 'a list \<Rightarrow> 'a list" where
  "sub_mid sub g vals =
     map (\<lambda>i. if 1 \<le> i \<and> i + 1 < length g then sub (g ! i) (vals ! (i - 1)) else g ! i)
       [0..<length g]"

text \<open>
  The three assignments of \<^verbatim>\<open>_calc_gradients\<close> along one axis, into the array \<open>g\<close> of
  zeros: the first node, the last node, the interior. The caller has checked that
  \<open>f\<close> has two nodes at least and the shape of \<open>g\<close>.
\<close>

definition fd_axis :: "(real \<Rightarrow> 'a \<Rightarrow> 'a \<Rightarrow> 'a) \<Rightarrow> real \<Rightarrow> 'a list \<Rightarrow> 'a list \<Rightarrow> 'a list" where
  "fd_axis dq h g f =
     (let n = length f;
          g1 = g[0 := dq h (f ! 1) (f ! 0)];
          g2 = g1[length g - 1 := dq h (f ! (n - 1)) (f ! (n - 2))]
      in assign_mid g2 (central dq h f))"

text \<open>Reading an attribute, and a keyword argument that defaults to an attribute.\<close>

definition attr :: "'a option \<Rightarrow> error + 'a" where
  "attr a = (case a of None \<Rightarrow> Inl AttributeError | Some v \<Rightarrow> Inr v)"

definition default_to :: "'a option \<Rightarrow> 'a option \<Rightarrow> error + 'a" where
  "default_to arg a = (case arg of None \<Rightarrow> attr a | Some v \<Rightarrow> Inr v)"

text \<open>\<^verbatim>\<open>_calc_gradients\<close>.\<close>

definition calc_gradients ::
  "PressureField \<Rightarrow> arr3 option \<Rightarrow> arr3 option \<Rightarrow> arr3 option \<Rightarrow> error + (arr3 \<times> arr3 \<times> arr3)" where
  "calc_gradients self u_arg v_arg w_arg =
     ebind (default_to u_arg (self_u0 self)) (\<lambda>u.
     ebind (default_to v_arg (self_v0 self)) (\<lambda>v.
     ebind (default_to w_arg (self_w0 self)) (\<lambda>w.
     ebind (attr (self_u0 self)) (\<lambda>u0.
     let shp = shape3 u0;
         du0_dx = zeros3 shp; dv0_dy = zeros3 shp; dw0_dz = zeros3 shp
     in
     if length u < 2 then Inl IndexError
     else if shape3 u \<noteq> shp then Inl ValueError
     else
       let du0_dx = fd_axis dq2 (self_dx self) du0_dx u in
       if fst (snd (shape3 v)) < 2 then Inl IndexError
       else if shape3 v \<noteq> shp then Inl ValueError
       else
         let dv0_dy = map (\<lambda>(g, f). fd_axis dq1 (self_dy self) g f) (zip dv0_dy v) in
         if snd (snd (shape3 w)) < 2 then Inl IndexError
         else if shape3 w \<noteq> shp then Inl ValueError
         else
           let dw0_dz = map (\<lambda>(gp, fp). map (\<lambda>(g, f). fd_axis dq0 (self_dz self) g f) (zip gp fp))
                          (zip dw0_dz w)
           in Inr (du0_dx, dv0_dy, dw0_dz)))))"

text \<open>Elementwise sum of two arrays, and \<^verbatim>\<open>ravel\<close> (C order: z varies fastest).\<close>

definition add3 :: "arr3 \<Rightarrow> arr3 \<Rightarrow> error + arr3" where
  "add3 a b =
     (if shape3 a \<noteq> shape3 b then Inl ValueError
      else Inr (map (\<lambda>(pa, pb). map (\<lambda>(ra, rb). map (\<lambda>(p, q). p + q) (zip ra rb)) (zip pa pb))
                  (zip a b)))"

definition ravel :: "arr3 \<Rightarrow> arr1" where
  "ravel a = concat (map concat a)"

text \<open>\<^verbatim>\<open>reshape\<close> of a one-dimensional array to three axes.\<close>

definition reshape3 :: "nat \<times> nat \<times> nat \<Rightarrow> arr1 \<Rightarrow> error + arr3" where
  "reshape3 s xs = (case s of (nx, ny, nz) \<Rightarrow>
     if length xs \<noteq> nx * ny * nz then Inl ValueError
     else Inr (map (\<lambda>i. map (\<lambda>j. map (\<lambda>k. xs ! (i * ny * nz + j * nz + k)) [0..<nz]) [0..<ny])
                 [0..<nx]))"

text \<open>\<^verbatim>\<open>_set_RHS\<close> and \<^verbatim>\<open>update_RHS\<close>.\<close>

definition set_RHS ::
  "PressureField \<Rightarrow> arr3 \<Rightarrow> arr3 option \<Rightarrow> arr3 option \<Rightarrow> error + PressureField" where
  "set_RHS self du_dx dv_dy dw_dz =
     (let dv = du_dx in
      ebind (case dv_dy of None \<Rightarrow> Inr dv | Some d \<Rightarrow> add3 dv d) (\<lambda>dv.
      ebind (case dw_dz of None \<Rightarrow> Inr dv | Some d \<Rightarrow> add3 dv d) (\<lambda>dv.
      Inr (self\<lparr>self_RHS := Some (ravel dv)\<rparr>))))"

definition update_RHS :: "PressureField \<Rightarrow> error + PressureField" where
  "update_RHS self =
     ebind (calc_gradients self None None None) (\<lambda>(du0_dx, dv0_dy, dw0_dz).
       set_RHS self du0_dx (Some dv0_dy) (Some dw0_dz))"

text \<open>
  \<^verbatim>\<open>_correct_fields\<close>. \<open>ms0 A\<close>, \<open>ms1 A\<close>, \<open>ms2 A\<close> are the elementwise \<^verbatim>\<open>g - A*d\<close>.
\<close>

definition ms0 :: "real \<Rightarrow> real \<Rightarrow> real \<Rightarrow> real" where
  "ms0 A g d = g - A * d"

definition ms1 :: "real \<Rightarrow> arr1 \<Rightarrow> arr1 \<Rightarrow> arr1" where
  "ms1 A g d = map (\<lambda>(p, q). ms0 A p q) (zip g d)"

definition ms2 :: "real \<Rightarrow> arr2 \<Rightarrow> arr2 \<Rightarrow> arr2" where
  "ms2 A g d = map (\<lambda>(p, q). ms1 A p q) (zip g d)"

definition correct_fields :: "PressureField \<Rightarrow> real \<Rightarrow> error + PressureField" where
  "correct_fields self A =
     ebind (attr (self_p self)) (\<lambda>p.
     let dp_dx = central dq2 (self_dx self) p;
         dp_dy = map (central dq1 (self_dy self)) p;
         dp_dz = map (map (central dq0 (self_dz self))) p
     in
     ebind (attr (self_u0 self)) (\<lambda>u.
     ebind (attr (self_v0 self)) (\<lambda>v.
     ebind (attr (self_w0 self)) (\<lambda>w.
     if shape3 u \<noteq> shape3 p \<or> shape3 v \<noteq> shape3 p \<or> shape3 w \<noteq> shape3 p
     then Inl ValueError
     else
       let u = sub_mid (ms2 A) u dp_dx;
           v = map (\<lambda>(g, d). sub_mid (ms1 A) g d) (zip v dp_dy);
           w = map (\<lambda>(gp, dp). map (\<lambda>(g, d). sub_mid (ms0 A) g d) (zip gp dp)) (zip w dp_dz)
       in Inr (self\<lparr>self_u := Some u, self_v := Some v, self_w := Some w\<rparr>)))))"

text \<open>
  \<^verbatim>\<open>div\<close>. It returns the value and the instance after the call.
  \<^verbatim>\<open>sum\<close> of the three gradients is \<^verbatim>\<open>((0 + a) + b) + c\<close>.
\<close>

definition div_pf :: "PressureField \<Rightarrow> bool \<Rightarrow> (error + arr3) \<times> PressureField" where
  "div_pf self corrected =
     (if corrected then
        (ebind (attr (self_u self)) (\<lambda>u.
         ebind (attr (self_v self)) (\<lambda>v.
         ebind (attr (self_w self)) (\<lambda>w.
         ebind (calc_gradients self (Some u) (Some v) (Some w)) (\<lambda>(a, b, c).
         ebind (add3 (map (map (map (\<lambda>e. 0 + e))) a) b) (\<lambda>s.
         add3 s c))))), self)
      else
        (ebind (attr (self_RHS self)) (\<lambda>rhs.
         ebind (attr (self_u0 self)) (\<lambda>u0.
         reshape3 (shape3 u0) rhs)), self))"

subsection \<open>The linear solver\<close>

text \<open>
  \<^verbatim>\<open>solve\<close> calls \<^verbatim>\<open>scipy.sparse.linalg.cg(LHS, b, x0=..., tol=tol, atol=tol)\<close>, which
  returns the iterate and an integer flag (zero for convergence). The solver is not
  part of the module: \<^verbatim>\<open>solve\<close> below takes it as a parameter of this type, with the
  arguments matrix, right-hand side, initial guess, \<^verbatim>\<open>tol\<close> and \<^verbatim>\<open>atol\<close>.
\<close>

type_synonym solver = "dia \<Rightarrow> arr1 \<Rightarrow> arr1 \<Rightarrow> real \<Rightarrow> real \<Rightarrow> error + (arr1 \<times> int)"

text \<open>
  The conjugate gradient iteration in exact arithmetic, as one instance of the
  parameter: the dimensions are checked, a zero right-hand side returns at once, the
  iteration stops when the Euclidean norm of the residual is below
  \<open>max atol (tol * norm b)\<close>, and after \<open>10 * n\<close> iterations the flag is the
  iteration count. Norms are compared through their squares, which keeps the
  definition free of square roots.
\<close>

definition dot :: "arr1 \<Rightarrow> arr1 \<Rightarrow> real" where
  "dot a b = (\<Sum>(p, q) \<leftarrow> zip a b. p * q)"

text \<open>\<open>norm_below r atol tol bb\<close>: the norm of \<open>r\<close> is below \<open>max atol (tol * sqrt bb)\<close>.\<close>

definition norm_below :: "arr1 \<Rightarrow> real \<Rightarrow> real \<Rightarrow> real \<Rightarrow> bool" where
  "norm_below r atol tol bb =
     ((0 < atol \<and> dot r r < atol ^ 2) \<or> (0 < tol \<and> dot r r < tol ^ 2 * bb))"

fun cg_loop ::
  "nat \<Rightarrow> nat \<Rightarrow> dia \<Rightarrow> (arr1 \<Rightarrow> bool) \<Rightarrow> arr1 \<Rightarrow> arr1 \<Rightarrow> arr1 \<Rightarrow> real \<Rightarrow> arr1 \<times> int" where
  "cg_loop 0 maxiter M done x r p rho_prev = (x, int maxiter)"
| "cg_loop (Suc k) maxiter M done x r p rho_prev =
     (if done r then (x, 0)
      else
        let rho_cur = dot r r;
            p = (if Suc k = maxiter then r
                 else map (\<lambda>(pk, rk). rho_cur / rho_prev * pk + rk) (zip p r));
            q = matvec M p;
            alpha = rho_cur / dot p q;
            x = map (\<lambda>(xk, pk). xk + alpha * pk) (zip x p);
            r = map (\<lambda>(rk, qk). rk - alpha * qk) (zip r q)
        in cg_loop k maxiter M done x r p rho_cur)"

definition cg :: solver where
  "cg M b x0 tol atol =
     (if length b \<noteq> dim M \<or> length x0 \<noteq> dim M then Inl ValueError
      else
        let bb = dot b b in
        if bb = 0 then Inr (b, 0)
        else
          let maxiter = 10 * length b;
              r = map (\<lambda>(bk, yk). bk - yk) (zip b (matvec M x0))
          in Inr (cg_loop maxiter maxiter M (\<lambda>r. norm_below r atol tol bb) x0 r [] 0))"

subsection \<open>Smoothing and solve\<close>

text \<open>
  The keyword arguments of \<^verbatim>\<open>interp\<close>, as \<^verbatim>\<open>solve\<close> passes them on from
  \<^verbatim>\<open>smooth_disk_region\<close>. Only \<^verbatim>\<open>x\<close> and \<^verbatim>\<open>coords\<close> are read by the code.
\<close>

record coords =
  x1 :: real
  x2 :: real
  x3 :: real

record disk_region =
  reg_x :: arr3
  reg_y :: arr3
  reg_z :: arr3
  reg_coords :: coords
  reg_D :: real
  reg_zhub :: real

text \<open>An integer index into an axis of \<open>n\<close> nodes: negative indices count from the end.\<close>

definition wrap :: "nat \<Rightarrow> int \<Rightarrow> nat" where
  "wrap n i = (if i < 0 then nat (i + int n) else nat i)"

definition py_index :: "nat \<Rightarrow> int \<Rightarrow> error + nat" where
  "py_index n i = (if - int n \<le> i \<and> i < int n then Inr (wrap n i) else Inl IndexError)"

text \<open>The elementwise \<^verbatim>\<open>c*(f1 - f0)/3 + f0\<close> on planes.\<close>

definition blend :: "real \<Rightarrow> arr2 \<Rightarrow> arr2 \<Rightarrow> arr2" where
  "blend c f1 f0 =
     map (\<lambda>(r1, r0). map (\<lambda>(b, a). c * (b - a) / 3 + a) (zip r1 r0)) (zip f1 f0)"

text \<open>
  The index selection of \<^verbatim>\<open>interp\<close>: the node nearest to \<open>turbx\<close>, one less when
  that node is not upstream of \<open>turbx\<close>.
\<close>

definition upstream_index :: "arr1 \<Rightarrow> real \<Rightarrow> error + int" where
  "upstream_index xs turbx =
     ebind (np_argmin (map (\<lambda>xi. \<bar>turbx - xi\<bar>) xs)) (\<lambda>imin.
       Inr (if xs ! imin \<ge> turbx then int imin - 1 else int imin))"

text \<open>
  \<^verbatim>\<open>interp\<close>. \<^verbatim>\<open>f0\<close> and \<^verbatim>\<open>f1\<close> are views of \<^verbatim>\<open>self.u\<close>, not copies: they are kept
  here as the slice indices \<open>r0\<close> and \<open>r1\<close>, and the second assignment reads them in the
  array as the first assignment left it.
\<close>

definition interp :: "PressureField \<Rightarrow> disk_region \<Rightarrow> error + PressureField" where
  "interp self reg =
     (let turbx = x1 (reg_coords reg) in
      ebind (sl_x (reg_x reg)) (\<lambda>xs.
      ebind (upstream_index xs turbx) (\<lambda>i0.
      ebind (attr (self_u self)) (\<lambda>u.
      ebind (py_index (length u) (i0 - 1)) (\<lambda>r0.
      ebind (py_index (length u) (i0 + 2)) (\<lambda>r1.
      ebind (py_index (length u) i0) (\<lambda>k0.
      let u = u[k0 := blend 1 (u ! r1) (u ! r0)] in
      ebind (py_index (length u) (i0 + 1)) (\<lambda>k1.
      let u = u[k1 := blend 2 (u ! r1) (u ! r0)] in
      Inr (self\<lparr>self_u := Some u\<rparr>)))))))))"

text \<open>
  \<^verbatim>\<open>solve\<close>. It returns the instance after the call and the triple
  \<^verbatim>\<open>(self.u, self.v, self.w)\<close>. \<open>solve_after_cg\<close> is the part of \<^verbatim>\<open>solve\<close> that
  follows the call of the solver, from the assertion on the flag to the return;
  \<open>soln\<close> is what the solver returned.
\<close>

definition solve_after_cg ::
  "PressureField \<Rightarrow> arr1 \<times> int \<Rightarrow> disk_region option \<Rightarrow> real \<Rightarrow>
     error + (PressureField \<times> arr3 \<times> arr3 \<times> arr3)" where
  "solve_after_cg self soln smooth_disk_region A =
     (if snd soln \<noteq> 0 then Inl AssertionError
      else
        ebind (attr (self_u0 self)) (\<lambda>u0.
        ebind (reshape3 (shape3 u0) (fst soln)) (\<lambda>p.
        ebind (correct_fields (self\<lparr>self_p := Some p\<rparr>) A) (\<lambda>self.
        ebind (case smooth_disk_region of None \<Rightarrow> Inr self | Some reg \<Rightarrow> interp self reg)
          (\<lambda>self.
        let self = self\<lparr>self_Nsolves := self_Nsolves self + 1\<rparr> in
        ebind (attr (self_u self)) (\<lambda>u.
        ebind (attr (self_v self)) (\<lambda>v.
        ebind (attr (self_w self)) (\<lambda>w.
        Inr (self, u, v, w)))))))))"

definition solve ::
  "solver \<Rightarrow> PressureField \<Rightarrow> arr3 \<Rightarrow> arr3 option \<Rightarrow> arr3 option \<Rightarrow> disk_region option \<Rightarrow>
     real \<Rightarrow> real \<Rightarrow> error + (PressureField \<times> arr3 \<times> arr3 \<times> arr3)" where
  "solve sv self u_wake v_wake w_wake smooth_disk_region A tol =
     (let self = self\<lparr>self_u0 := Some u_wake\<rparr>;
          self = self\<lparr>self_v0 := Some (case v_wake of None \<Rightarrow> zeros3 (shape3 u_wake)
                                                   | Some v \<Rightarrow> v)\<rparr>;
          self = self\<lparr>self_w0 := Some (case w_wake of None \<Rightarrow> zeros3 (shape3 u_wake)
                                                   | Some w \<Rightarrow> w)\<rparr>
      in
      ebind (update_RHS self) (\<lambda>self.
      ebind (attr (self_RHS self)) (\<lambda>rhs.
      ebind (sv (self_LHS self) (map (\<lambda>r. r / A) rhs) (replicate (self_N self) 0) tol tol)
        (\<lambda>soln. solve_after_cg self soln smooth_disk_region A))))"

subsection \<open>Grids for the examples\<close>

text \<open>
  The coordinate arrays of the grid with nodes \<open>xs\<close>, \<open>ys\<close>, \<open>zs\<close> along the
  axes, each of shape \<open>(length xs, length ys, length zs)\<close>.
\<close>

definition mesh :: "arr1 \<Rightarrow> arr1 \<Rightarrow> arr1 \<Rightarrow> flow_field" where
  "mesh xs ys zs =
     \<lparr> ff_x = map (\<lambda>a. replicate (length ys) (replicate (length zs) a)) xs,
       ff_y = replicate (length xs) (map (\<lambda>b. replicate (length zs) b) ys),
       ff_z = replicate (length xs) (replicate (length ys) zs) \<rparr>"

definition grid222 :: flow_field where
  "grid222 = mesh [0, 1] [0, 1] [0, 1]"

text \<open>The instance that \<open>init\<close> builds from \<open>grid222\<close>.\<close>

definition pf222 :: PressureField where
  "pf222 =
     \<lparr> self_x = [[[0, 0], [0, 0]], [[1, 1], [1, 1]]],
       self_y = [[[0, 0], [1, 1]], [[0, 0], [1, 1]]],
       self_z = [[[0, 1], [0, 1]], [[0, 1], [0, 1]]],
       self_Nx = 2, self_Ny = 2, self_Nz = 2, self_N = 8,
       self_x1 = [0, 1], self_y1 = [0, 1], self_z1 = [0, 1],
       self_dx = 1, self_dy = 1, self_dz = 1,
       self_LHS =
         \<lparr> dim = 8,
           bands =
             [(- 4, [1, 1, 1, 1]), (- 2, [1, 1, 0, 0, 1, 1]),
              (- 1, [1, 0, 1, 0, 1, 0, 1]),
              (0, [- 6, - 6, - 6, - 6, - 6, - 6, - 6, - 6]),
              (1, [1, 0, 1, 0, 1, 0, 1]), (2, [1, 1, 0, 0, 1, 1]),
              (4, [1, 1, 1, 1])] \<rparr>,
       self_RHS = None, self_Nsolves = 0, self_khub = 1,
       self_u0 = None, self_v0 = None, self_w0 = None,
       self_p = None, self_u = None, self_v = None, self_w = None \<rparr>"

text \<open>
  The smoothing arguments for a turbine at \<open>x = t\<close> on the grid \<open>g\<close>.
\<close>

definition region :: "flow_field \<Rightarrow> real \<Rightarrow> disk_region" where
  "region g t = \<lparr> reg_x = ff_x g, reg_y = ff_y g, reg_z = ff_z g,
                  reg_coords = \<lparr> x1 = t, x2 = 1 / 2, x3 = 1 / 2 \<rparr>, reg_D = 1, reg_zhub = 0 \<rparr>"

text \<open>
  A grid of 4 by 2 by 2 nodes with a predictor whose discrete divergence is zero
  (\<open>u\<close> is 0, 1, 4, 9 on the four x-slices; \<open>v\<close> balances its x-derivative), and the
  result of a solve on it.
\<close>

definition grid422 :: flow_field where
  "grid422 = mesh [0, 1, 2, 3] [0, 1] [0, 1]"

definition pf422 :: PressureField where
  "pf422 = projr (init grid422)"

definition ex_u :: arr3 where
  "ex_u = [[[0, 0], [0, 0]], [[1, 1], [1, 1]], [[4, 4], [4, 4]], [[9, 9], [9, 9]]]"

definition ex_v :: arr3 where
  "ex_v = [[[1, 1], [0, 0]], [[2, 2], [0, 0]], [[4, 4], [0, 0]], [[5, 5], [0, 0]]]"

definition res422 :: "PressureField \<times> arr3 \<times> arr3 \<times> arr3" where
  "res422 = projr (solve cg pf422 ex_u (Some ex_v) None None 1 (1 / 10 ^ 8))"

text \<open>A predictor on the grid of 2 by 2 by 2 nodes, again with zero discrete divergence.\<close>

definition cex7_u :: arr3 where
  "cex7_u = [[[0, 0], [0, 0]], [[3, 3], [3, 3]]]"

definition cex7_v :: arr3 where
  "cex7_v = [[[3, 3], [0, 0]], [[3, 3], [0, 0]]]"

text \<open>A grid of 3 by 4 by 2 nodes.\<close>

definition grid342 :: flow_field where
  "grid342 = mesh [0, 1, 2] [0, 1, 2, 3] [0, 1]"

definition pf342 :: PressureField where
  "pf342 = projr (init grid342)"

text \<open>
  A grid of 3 by 2 by 2 nodes and a predictor on it whose divergence, \<open>cex3_rhs\<close>, is
  an eigenvector of the operator (eigenvalue -4), so that the conjugate gradient
  iteration ends after one step with the exact solution.
\<close>

definition grid322 :: flow_field where
  "grid322 = mesh [0, 1, 2] [0, 1] [0, 1]"

definition pf322 :: PressureField where
  "pf322 = projr (init grid322)"

definition cex3_u :: arr3 where
  "cex3_u = [[[0, 0], [0, 0]], [[1, 1], [1, 1]], [[0, 0], [0, 0]]]"

definition cex3_rhs :: arr1 where
  "cex3_rhs = [1, 1, 1, 1, 0, 0, 0, 0, - 1, - 1, - 1, - 1]"

subsection \<open>The statements of the specification\<close>

text \<open>
  The interpolant of the smoothing patch in the words of the specification:
  \<open>f0 + c * (f1 - f0) / 3\<close>, elementwise on two planes.
\<close>

definition interpolant :: "real \<Rightarrow> arr2 \<Rightarrow> arr2 \<Rightarrow> arr2" where
  "interpolant c f0 f1 =
     map (\<lambda>(r0, r1). map (\<lambda>(a, b). a + c * (b - a) / 3) (zip r0 r1)) (zip f0 f1)"

text \<open>
  The finite difference of the specification along an axis of \<open>n\<close> nodes with spacing
  \<open>delta\<close>: central at the interior indices \<open>1..n-2\<close>, forward at the first node,
  backward at the last. \<open>divergence_spec\<close> sums the three directional contributions
  at node \<open>(i, j, k)\<close>.
\<close>

definition fd_spec :: "real \<Rightarrow> nat \<Rightarrow> (nat \<Rightarrow> real) \<Rightarrow> nat \<Rightarrow> real" where
  "fd_spec delta n f i =
     (if i = 0 then (f 1 - f 0) / delta
      else if i = n - 1 then (f (n - 1) - f (n - 2)) / delta
      else (f (i + 1) - f (i - 1)) / (2 * delta))"

definition divergence_spec ::
  "real \<Rightarrow> real \<Rightarrow> real \<Rightarrow> nat \<times> nat \<times> nat \<Rightarrow> arr3 \<Rightarrow> arr3 \<Rightarrow> arr3 \<Rightarrow> nat \<Rightarrow> nat \<Rightarrow> nat \<Rightarrow> real" where
  "divergence_spec dx dy dz s u v w i j k = (case s of (nx, ny, nz) \<Rightarrow>
     fd_spec dx nx (\<lambda>i'. u ! i' ! j ! k) i +
     fd_spec dy ny (\<lambda>j'. v ! i ! j' ! k) j +
     fd_spec dz nz (\<lambda>k'. w ! i ! j ! k') k)"

text \<open>
  The operator in the words of the specification: order \<open>N = Nx * Ny * Nz\<close>; main
  diagonal \<open>-2/dx^2 - 2/dy^2 - 2/dz^2\<close>; bands at offsets \<open>\<plusminus>(Ny * Nz)\<close>,
  \<open>\<plusminus>Nz\<close>, \<open>\<plusminus>1\<close> holding \<open>1/dx^2\<close>, \<open>1/dy^2\<close>, \<open>1/dz^2\<close>; the
  \<open>\<plusminus>Nz\<close> band zero on the last \<open>Nz\<close> positions of every block of \<open>Ny * Nz\<close>
  entries, the \<open>\<plusminus>1\<close> band zero at every \<open>Nz\<close>-th position; the x band without
  correction.
\<close>

definition spec_LHS :: "nat \<Rightarrow> nat \<Rightarrow> nat \<Rightarrow> real \<Rightarrow> real \<Rightarrow> real \<Rightarrow> dia" where
  "spec_LHS Nx Ny Nz dx dy dz =
     (let N = Nx * Ny * Nz;
          bx = replicate (N - Ny * Nz) (1 / dx ^ 2);
          by = map (\<lambda>i. if Ny * Nz - Nz \<le> i mod (Ny * Nz) then 0 else 1 / dy ^ 2) [0..<N - Nz];
          bz = map (\<lambda>i. if i mod Nz = Nz - 1 then 0 else 1 / dz ^ 2) [0..<N - 1];
          d = replicate N (- 2 / dx ^ 2 - 2 / dy ^ 2 - 2 / dz ^ 2)
      in \<lparr> dim = N,
           bands = [(- int (Ny * Nz), bx), (- int Nz, by), (- 1, bz), (0, d),
                    (1, bz), (int Nz, by), (int (Ny * Nz), bx)] \<rparr>)"

section \<open>Properties\<close>

subsection \<open>Construction\<close>

lemma init_grid222: "init grid222 = Inr pf222"
  by code_simp

lemma init_grid422: "init grid422 = Inr pf422"
  by code_simp

lemma init_grid342: "init grid342 = Inr pf342"
  by code_simp

lemma solve422: "solve cg pf422 ex_u (Some ex_v) None None 1 (1 / 10 ^ 8) = Inr res422"
  by code_simp

lemma res422_u: "self_u (fst res422) = Some ex_u"
  by code_simp

lemma fold_max_True: "fold max (bs::bool list) True = True"
  by (induction bs) (simp_all add: max_def)

text \<open>
  The spacing assertion cannot fail: the deviation of the first spacing from itself is
  zero, so the array of booleans holds \<open>True\<close> and its maximum is \<open>True\<close>.
\<close>

lemma assert_spacing_eq: "assert_spacing d = (if d = [] then Inl IndexError else Inr ())"
  by (cases d) (simp_all add: assert_spacing_def ebind_def fold_max_True max_def)

lemma init_fresh:
  assumes "init ff = Inr pf"
  shows "self_RHS pf = None" "self_u0 pf = None" "self_u pf = None"
  using assms by (auto simp: init_def ebind_def Let_def split: sum.splits prod.splits)

text \<open>
  C1. A grid whose spacing along x deviates from constant by 1e-8 or more should be
  refused at construction. On the grid with x nodes 0, 1, 3 (spacings 1 and 2) and
  unit spacing along y and z the construction succeeds and records
  \<open>dx = 1, dy = 1, dz = 1\<close>.
\<close>

theorem C1_nonuniform_grid_accepted:
  "map_sum id (\<lambda>pf. (self_x1 pf, self_dx pf, self_dy pf, self_dz pf))
     (init (mesh [0, 1, 3] [0, 1] [0, 1])) = Inr ([0, 1, 3], 1, 1, 1)"
  by (simp add: init_def mesh_def shape3_def sl_x_def sl_y_def sl_z_def np_diff_def ebind_def
      assert_spacing_def setup_LHS_def drop_last_def range3_def slice_sub_def stride_sub_def
      diags_def Let_def)

subsection \<open>The operator\<close>

lemma length_slice_sub [simp]: "length (slice_sub lo hi c xs) = length xs"
  by (simp add: slice_sub_def)

lemma slice_sub_nth:
  "j < length xs \<Longrightarrow> slice_sub lo hi c xs ! j = (if lo \<le> j \<and> j < hi then xs ! j - c else xs ! j)"
  by (simp add: slice_sub_def)

lemma length_fold_slice_sub [simp]:
  "length (fold (\<lambda>i. slice_sub (i - w) i c) is xs) = length xs"
  by (induction "is" arbitrary: xs) simp_all

lemma fold_slice_sub_nth:
  "j < length xs \<Longrightarrow>
   fold (\<lambda>i. slice_sub (i - w) i c) is xs ! j =
     xs ! j - c * real (length (filter (\<lambda>i. i - w \<le> j \<and> j < i) is))"
proof (induction "is" arbitrary: xs)
  case Nil
  then show ?case by simp
next
  case (Cons i "is")
  have "fold (\<lambda>i. slice_sub (i - w) i c) (i # is) xs ! j
          = fold (\<lambda>i. slice_sub (i - w) i c) is (slice_sub (i - w) i c xs) ! j" by simp
  also have "\<dots> = slice_sub (i - w) i c xs ! j
                     - c * real (length (filter (\<lambda>i. i - w \<le> j \<and> j < i) is))"
    using Cons.prems by (intro Cons.IH) simp
  finally show ?case using Cons.prems by (simp add: slice_sub_nth algebra_simps)
qed

lemma window_multiple:
  fixes s w j L :: nat
  assumes s: "0 < s" and w: "w \<le> s"
  shows "{i. s \<le> i \<and> i < L \<and> (i - s) mod s = 0 \<and> i - w \<le> j \<and> j < i} =
           (if s - w \<le> j mod s \<and> (j div s + 1) * s < L then {(j div s + 1) * s} else {})"
proof -
  define q where "q = j div s"
  define r where "r = j mod s"
  define i0 where "i0 = (q + 1) * s"
  have j: "j = q * s + r" unfolding q_def r_def by simp
  have r: "r < s" unfolding r_def using s by simp
  have i0: "i0 = q * s + s" unfolding i0_def by simp
  have ji: "j < i0" unfolding i0 j using r by simp
  have gap: "i0 = j + (s - r)" unfolding i0 j using r by simp
  have sub: "i = i0 \<and> s - w \<le> r"
    if a: "s \<le> i" "(i - s) mod s = 0" "i - w \<le> j" "j < i" for i
  proof -
    from a(2) have "s dvd i - s" by (simp add: dvd_eq_mod_eq_0)
    then have "s dvd (i - s) + s" by simp
    then have "s dvd i" using a(1) by simp
    then obtain k where k: "i = k * s" by (auto simp: dvd_def mult.commute)
    have "q * s \<le> j" unfolding j by simp
    then have "q * s < k * s" using a(4) k by linarith
    then have "q < k" using s by simp
    then have k1: "q + 1 \<le> k" by simp
    have iw: "i \<le> j + w" using a(3) by simp
    also have "\<dots> < i0 + s" using ji w by linarith
    also have "\<dots> = (q + 2) * s" unfolding i0 by simp
    finally have "k * s < (q + 2) * s" using k by simp
    then have "k < q + 2" by (rule mult_less_cancel2[THEN iffD1, THEN conjunct2])
    with k1 have "k = q + 1" by simp
    then have ii: "i = i0" using k i0_def by simp
    have "j + (s - r) \<le> j + w" using gap ii iw by simp
    then have "s - w \<le> r" by simp
    with ii show ?thesis by simp
  qed
  have sup: "s \<le> i0 \<and> (i0 - s) mod s = 0 \<and> i0 - w \<le> j \<and> j < i0" if b: "s - w \<le> r"
  proof -
    have "i0 - w \<le> j" unfolding gap using b r w by simp
    moreover have "(i0 - s) mod s = 0" unfolding i0 by simp
    moreover have "s \<le> i0" unfolding i0 by simp
    ultimately show ?thesis using ji by simp
  qed
  have "{i. s \<le> i \<and> i < L \<and> (i - s) mod s = 0 \<and> i - w \<le> j \<and> j < i} =
           (if s - w \<le> r \<and> i0 < L then {i0} else {})"
  proof (rule set_eqI)
    fix i
    show "i \<in> {i. s \<le> i \<and> i < L \<and> (i - s) mod s = 0 \<and> i - w \<le> j \<and> j < i} \<longleftrightarrow>
          i \<in> (if s - w \<le> r \<and> i0 < L then {i0} else {})"
    proof
      assume "i \<in> {i. s \<le> i \<and> i < L \<and> (i - s) mod s = 0 \<and> i - w \<le> j \<and> j < i}"
      then have a: "s \<le> i" "i < L" "(i - s) mod s = 0" "i - w \<le> j" "j < i" by simp_all
      from sub[OF a(1,3,4,5)] have "i = i0" "s - w \<le> r" by simp_all
      with a(2) show "i \<in> (if s - w \<le> r \<and> i0 < L then {i0} else {})" by simp
    next
      assume "i \<in> (if s - w \<le> r \<and> i0 < L then {i0} else {})"
      then have c: "s - w \<le> r" "i0 < L" "i = i0" by (simp_all split: if_splits)
      from sup[OF c(1)] c(2,3)
      show "i \<in> {i. s \<le> i \<and> i < L \<and> (i - s) mod s = 0 \<and> i - w \<le> j \<and> j < i}" by simp
    qed
  qed
  then show ?thesis unfolding i0_def q_def r_def .
qed

lemma stride_cond:
  fixes n j :: nat
  assumes "0 < n"
  shows "(n - 1 \<le> j \<and> (j - (n - 1)) mod n = 0) \<longleftrightarrow> j mod n = n - 1"
proof
  assume a: "n - 1 \<le> j \<and> (j - (n - 1)) mod n = 0"
  then have "n dvd j - (n - 1)" by (simp add: dvd_eq_mod_eq_0)
  then obtain k where k: "j - (n - 1) = n * k" by (auto simp: dvd_def)
  then have "j = n * k + (n - 1)" using a by linarith
  then have "j mod n = (n - 1) mod n" by simp
  then show "j mod n = n - 1" using assms by simp
next
  assume b: "j mod n = n - 1"
  have j: "j = j div n * n + j mod n" by simp
  then have j': "j = j div n * n + (n - 1)" using b by simp
  then have "n - 1 \<le> j" by linarith
  moreover have "j - (n - 1) = j div n * n" using j' by linarith
  then have "(j - (n - 1)) mod n = 0" by simp
  ultimately show "n - 1 \<le> j \<and> (j - (n - 1)) mod n = 0" by simp
qed

lemma band_z:
  assumes "0 < Nz"
  shows "stride_sub (Nz - 1) Nz (1 / dz ^ 2) (map (\<lambda>o1. o1 / dz ^ 2) (replicate n 1)) =
           Inr (map (\<lambda>i. if i mod Nz = Nz - 1 then 0 else 1 / dz ^ 2) [0..<n])"
proof -
  let ?xs = "map (\<lambda>o1. o1 / dz ^ 2) (replicate n (1::real))"
  have len: "length ?xs = n" by simp
  have "map (\<lambda>j. if Nz - 1 \<le> j \<and> (j - (Nz - 1)) mod Nz = 0 then ?xs ! j - 1 / dz ^ 2 else ?xs ! j)
          [0..<n]
        = map (\<lambda>i. if i mod Nz = Nz - 1 then 0 else 1 / dz ^ 2) [0..<n]"
    unfolding stride_cond[OF assms] by (rule map_cong) simp_all
  then show ?thesis
    unfolding stride_sub_def len using assms by (simp only: if_False less_irrefl[THEN eq_False[THEN iffD2]] neq0_conv[symmetric] simp_thms)
qed

lemma count_y:
  fixes Nx Ny Nz j :: nat
  assumes n: "1 \<le> Nx" "2 \<le> Ny" "1 \<le> Nz" and j: "j < Nx * Ny * Nz - Nz"
  shows "length (filter (\<lambda>i. i - Nz \<le> j \<and> j < i)
                   (filter (\<lambda>i. (i - Ny * Nz) mod (Ny * Nz) = 0) [Ny * Nz..<Nx * Ny * Nz - Nz]))
           = (if Ny * Nz - Nz \<le> j mod (Ny * Nz) then 1 else 0)"
proof -
  let ?s = "Ny * Nz" and ?L = "Nx * Ny * Nz - Nz"
  have s: "0 < ?s" using n by simp
  have w: "Nz \<le> ?s" using n by simp
  have w2: "Nz < ?s"
  proof -
    have "1 * Nz < Ny * Nz" using n by (intro mult_strict_right_mono) simp_all
    then show ?thesis by simp
  qed
  have N: "Nx * Ny * Nz = Nx * ?s" by (simp add: mult.assoc)
  have "length (filter (\<lambda>i. i - Nz \<le> j \<and> j < i) (filter (\<lambda>i. (i - ?s) mod ?s = 0) [?s..<?L]))
          = card ({i. ((i - ?s) mod ?s = 0) \<and> (i - Nz \<le> j \<and> j < i)} \<inter> set [?s..<?L])"
    by (simp add: distinct_length_filter)
  also have "{i. ((i - ?s) mod ?s = 0) \<and> (i - Nz \<le> j \<and> j < i)} \<inter> set [?s..<?L]
               = {i. ?s \<le> i \<and> i < ?L \<and> (i - ?s) mod ?s = 0 \<and> i - Nz \<le> j \<and> j < i}"
    by auto
  also have "\<dots> = (if ?s - Nz \<le> j mod ?s \<and> (j div ?s + 1) * ?s < ?L then {(j div ?s + 1) * ?s} else {})"
    by (rule window_multiple[OF s w])
  also have "card \<dots> = (if ?s - Nz \<le> j mod ?s then 1 else 0)"
  proof (cases "?s - Nz \<le> j mod ?s")
    case False
    then show ?thesis by simp
  next
    case True
    have r: "j mod ?s < ?s" using s by simp
    have "(j div ?s + 1) * ?s = j div ?s * ?s + j mod ?s + (?s - j mod ?s)" using r by simp
    also have "\<dots> = j + (?s - j mod ?s)" by (simp only: div_mult_mod_eq)
    also have "\<dots> \<le> j + Nz" using True r by simp
    also have "\<dots> < Nx * ?s" using j N by simp
    finally have lt: "(j div ?s + 1) * ?s < Nx * ?s" .
    then have "j div ?s + 1 < Nx" by (rule mult_less_cancel2[THEN iffD1, THEN conjunct2])
    then have "j div ?s + 1 + 1 \<le> Nx" by simp
    then have "(j div ?s + 1 + 1) * ?s \<le> Nx * ?s" by (rule mult_le_mono1)
    then have "(j div ?s + 1) * ?s + ?s \<le> Nx * ?s" by (simp add: algebra_simps)
    then have "(j div ?s + 1) * ?s < Nx * ?s - Nz" using w2 by linarith
    then have "(j div ?s + 1) * ?s < ?L" using N by simp
    with True show ?thesis by simp
  qed
  finally show ?thesis .
qed

lemma band_y:
  fixes Nx Ny Nz :: nat
  assumes n: "1 \<le> Nx" "2 \<le> Ny" "1 \<le> Nz"
  shows "fold (\<lambda>i. slice_sub (i - Nz) i (1 / dy ^ 2))
           (filter (\<lambda>i. (i - Ny * Nz) mod (Ny * Nz) = 0) [Ny * Nz..<Nx * Ny * Nz - Nz])
           (map (\<lambda>o1. o1 / dy ^ 2) (replicate (Nx * Ny * Nz - Nz) 1))
         = map (\<lambda>i. if Ny * Nz - Nz \<le> i mod (Ny * Nz) then 0 else 1 / dy ^ 2) [0..<Nx * Ny * Nz - Nz]"
proof (rule nth_equalityI)
  show "length (fold (\<lambda>i. slice_sub (i - Nz) i (1 / dy ^ 2))
           (filter (\<lambda>i. (i - Ny * Nz) mod (Ny * Nz) = 0) [Ny * Nz..<Nx * Ny * Nz - Nz])
           (map (\<lambda>o1. o1 / dy ^ 2) (replicate (Nx * Ny * Nz - Nz) 1)))
        = length (map (\<lambda>i. if Ny * Nz - Nz \<le> i mod (Ny * Nz) then 0 else 1 / dy ^ 2) [0..<Nx * Ny * Nz - Nz])"
    by simp
next
  fix j
  assume "j < length (fold (\<lambda>i. slice_sub (i - Nz) i (1 / dy ^ 2))
           (filter (\<lambda>i. (i - Ny * Nz) mod (Ny * Nz) = 0) [Ny * Nz..<Nx * Ny * Nz - Nz])
           (map (\<lambda>o1. o1 / dy ^ 2) (replicate (Nx * Ny * Nz - Nz) 1)))"
  then have j: "j < Nx * Ny * Nz - Nz" by simp
  then have jl: "j < length (map (\<lambda>o1. o1 / dy ^ 2) (replicate (Nx * Ny * Nz - Nz) (1::real)))" by simp
  show "fold (\<lambda>i. slice_sub (i - Nz) i (1 / dy ^ 2))
           (filter (\<lambda>i. (i - Ny * Nz) mod (Ny * Nz) = 0) [Ny * Nz..<Nx * Ny * Nz - Nz])
           (map (\<lambda>o1. o1 / dy ^ 2) (replicate (Nx * Ny * Nz - Nz) 1)) ! j
        = map (\<lambda>i. if Ny * Nz - Nz \<le> i mod (Ny * Nz) then 0 else 1 / dy ^ 2) [0..<Nx * Ny * Nz - Nz] ! j"
    unfolding fold_slice_sub_nth[OF jl] count_y[OF n j]
    using j by simp
qed

lemma range3_Inr: "0 < s \<Longrightarrow> range3 a b s = Inr (filter (\<lambda>i. (i - a) mod s = 0) [a..<b])"
  by (simp add: range3_def)

lemma diags7:
  fixes N s w :: nat
  assumes o: "1 < w" "w < s" "s \<le> N"
    and l: "length bx = N - s" "length by = N - w" "length bz = N - 1" "length d = N"
  shows "diags [bx, by, bz, d, bz, by, bx] [- int s, - int w, - int 1, 0, int 1, int w, int s]
           = Inr \<lparr> dim = N,
                   bands = [(- int s, bx), (- int w, by), (- 1, bz), (0, d),
                            (1, bz), (int w, by), (int s, bx)] \<rparr>"
proof -
  have m: "length (hd [bx, by, bz, d, bz, by, bx]) +
           nat \<bar>hd [- int s, - int w, - int 1, 0, int 1, int w, int s]\<bar> = N"
    using o l by simp
  have ab: "nat \<bar>- int s\<bar> = s" "nat \<bar>- int w\<bar> = w" "nat \<bar>int s\<bar> = s" "nat \<bar>int w\<bar> = w"
    by simp_all
  have ex: "\<not> list_ex (\<lambda>(d, k). int N < \<bar>k\<bar> \<or> (length d \<noteq> N - nat \<bar>k\<bar> \<and> length d \<noteq> 1))
             (zip [bx, by, bz, d, bz, by, bx] [- int s, - int w, - int 1, 0, int 1, int w, int s])"
    using o l by (simp add: ab)
  have di: "distinct [- int s, - int w, - int 1, 0, int 1, int w, int s]"
    using o by simp
  show ?thesis
    unfolding diags_def Let_def m
    using ex di l by (simp add: ab)
qed

lemma setup_LHS_ok:
  fixes Nx Ny Nz :: nat
  assumes n: "1 \<le> Nx" "2 \<le> Ny" "2 \<le> Nz"
  shows "setup_LHS (Nx * Ny * Nz) Ny Nz dx dy dz = Inr (spec_LHS Nx Ny Nz dx dy dz)"
proof -
  let ?N = "Nx * Ny * Nz" and ?s = "Ny * Nz"
  have s: "0 < ?s" "?s \<noteq> 0" "0 < Nz" "Nz \<noteq> 0" "1 \<le> Nz" using n by simp_all
  have Nz_lt: "Nz < ?s"
  proof -
    have "1 * Nz < Ny * Nz" using n by (intro mult_strict_right_mono) simp_all
    then show ?thesis by simp
  qed
  have sN: "?s \<le> ?N"
  proof -
    have "1 * ?s \<le> Nx * ?s" using n by (intro mult_le_mono1) simp
    then show ?thesis by (simp add: mult.assoc)
  qed
  have one_lt: "1 < Nz" using n by simp
  let ?ones = "replicate ?N (1::real)"
  have dx: "drop_last ?s ?ones = replicate (?N - ?s) 1" using s by (simp add: drop_last_def)
  have dy: "drop_last Nz ?ones = replicate (?N - Nz) 1" using s by (simp add: drop_last_def)
  have dz: "drop_last 1 ?ones = replicate (?N - 1) 1" by (simp add: drop_last_def)
  let ?bx = "replicate (?N - ?s) (1 / dx ^ 2)"
  let ?by = "map (\<lambda>i. if ?s - Nz \<le> i mod ?s then 0 else 1 / dy ^ 2) [0..<?N - Nz]"
  let ?bz = "map (\<lambda>i. if i mod Nz = Nz - 1 then 0 else 1 / dz ^ 2) [0..<?N - 1]"
  let ?d = "replicate ?N (- 2 / dx ^ 2 - 2 / dy ^ 2 - 2 / dz ^ 2)"
  have bx: "map (\<lambda>o1. o1 / dx ^ 2) (replicate (?N - ?s) 1) = ?bx" by simp
  have d: "map (\<lambda>o1. - 2 * o1 / dx ^ 2 - 2 * o1 / dy ^ 2 - 2 * o1 / dz ^ 2) ?ones = ?d" by simp
  have rg: "range3 ?s (?N - Nz) ?s = Inr (filter (\<lambda>i. (i - ?s) mod ?s = 0) [?s..<?N - Nz])"
    by (rule range3_Inr[OF s(1)])
  have yb: "fold (\<lambda>i. slice_sub (i - Nz) i (1 / dy ^ 2))
           (filter (\<lambda>i. (i - ?s) mod ?s = 0) [?s..<?N - Nz])
           (map (\<lambda>o1. o1 / dy ^ 2) (replicate (?N - Nz) 1)) = ?by"
    by (rule band_y[OF n(1,2) s(5)])
  have zb: "stride_sub (Nz - 1) Nz (1 / dz ^ 2) (map (\<lambda>o1. o1 / dz ^ 2) (replicate (?N - 1) 1)) = Inr ?bz"
    by (rule band_z[OF s(3)])
  have dg: "diags [?bx, ?by, ?bz, ?d, ?bz, ?by, ?bx]
              [- int ?s, - int Nz, - int 1, 0, int 1, int Nz, int ?s]
            = Inr \<lparr> dim = ?N,
                    bands = [(- int ?s, ?bx), (- int Nz, ?by), (- 1, ?bz), (0, ?d),
                             (1, ?bz), (int Nz, ?by), (int ?s, ?bx)] \<rparr>"
    using diags7[of Nz ?s ?N ?bx ?by ?bz ?d] Nz_lt one_lt sN by simp
  show ?thesis
    unfolding setup_LHS_def Let_def length_map length_replicate dx dy dz bx d rg ebind_def sum.case yb zb
    using dg by (simp add: spec_LHS_def Let_def)
qed

lemma diags_Inr:
  assumes "diags ds os = Inr L"
  shows "distinct os"
    and "\<not> list_ex (\<lambda>(d, k). int (length (hd ds) + nat \<bar>hd os\<bar>) < \<bar>k\<bar> \<or>
                      (length d \<noteq> length (hd ds) + nat \<bar>hd os\<bar> - nat \<bar>k\<bar> \<and> length d \<noteq> 1)) (zip ds os)"
  using assms by (auto simp: diags_def Let_def split: if_splits)

lemma setup_LHS_Inr_dims:
  fixes Nx Ny Nz :: nat
  assumes "setup_LHS (Nx * Ny * Nz) Ny Nz dx dy dz = Inr L"
  shows "1 \<le> Nx \<and> 2 \<le> Ny \<and> 2 \<le> Nz"
proof -
  let ?N = "Nx * Ny * Nz" and ?s = "Ny * Nz"
  from assms obtain bx "by" bz d where
    r: "range3 ?s (length (map (\<lambda>o1. o1 / dy ^ 2) (drop_last Nz (replicate ?N (1::real))))) ?s \<noteq> Inl ValueError"
    and z: "stride_sub (Nz - 1) Nz (1 / dz ^ 2) (map (\<lambda>o1. o1 / dz ^ 2) (drop_last 1 (replicate ?N 1))) = Inr bz"
    and bx: "bx = map (\<lambda>o1. o1 / dx ^ 2) (drop_last ?s (replicate ?N 1))"
    and d: "d = map (\<lambda>o1. - 2 * o1 / dx ^ 2 - 2 * o1 / dy ^ 2 - 2 * o1 / dz ^ 2) (replicate ?N 1)"
    and dg: "diags [bx, by, bz, d, bz, by, bx]
               [- int ?s, - int Nz, - int 1, 0, int 1, int Nz, int ?s] = Inr L"
    by (auto simp: setup_LHS_def Let_def ebind_def range3_def split: sum.splits if_splits)
  from r have s0: "?s \<noteq> 0" by (auto simp: range3_def split: if_splits)
  then have pos: "0 < Ny" "0 < Nz" by simp_all
  from diags_Inr(1)[OF dg] have "- int ?s \<noteq> - int Nz" "- int Nz \<noteq> - int 1" by simp_all
  then have ne: "?s \<noteq> Nz" "Nz \<noteq> 1" by (simp_all del: of_nat_mult)
  from ne(1) have "Ny \<noteq> 1" by auto
  with pos ne(2) have n: "2 \<le> Ny" "2 \<le> Nz" by simp_all
  have lbx: "length bx = ?N - ?s" unfolding bx using s0 by (simp add: drop_last_def)
  have ld: "length d = ?N" unfolding d by simp
  from diags_Inr(2)[OF dg] have "length d = length bx + nat \<bar>- int ?s\<bar> - nat \<bar>0::int\<bar> \<or> length d = 1"
    by simp
  then have c: "?N = ?N - ?s + ?s \<or> ?N = 1" unfolding lbx ld by (simp del: of_nat_mult)
  have "Nx \<noteq> 0"
  proof
    assume "Nx = 0"
    with c s0 show False by simp
  qed
  with n show ?thesis by simp
qed

lemma init_LHS:
  assumes "init ff = Inr pf"
  shows "self_N pf = self_Nx pf * self_Ny pf * self_Nz pf"
    and "setup_LHS (self_N pf) (self_Ny pf) (self_Nz pf) (self_dx pf) (self_dy pf) (self_dz pf)
           = Inr (self_LHS pf)"
  using assms by (auto simp: init_def ebind_def Let_def split: sum.splits prod.splits)

text \<open>
  C2. The operator assembled at construction (for non-zero spacings) is the
  seven-banded matrix of order \<open>N = Nx * Ny * Nz\<close> of the specification.
\<close>

theorem C2_operator_bands:
  assumes "init ff = Inr pf"
    and "self_dx pf \<noteq> 0" "self_dy pf \<noteq> 0" "self_dz pf \<noteq> 0"
  shows "self_N pf = self_Nx pf * self_Ny pf * self_Nz pf \<and>
         dim (self_LHS pf) = self_N pf \<and>
         self_LHS pf =
           spec_LHS (self_Nx pf) (self_Ny pf) (self_Nz pf) (self_dx pf) (self_dy pf) (self_dz pf)"
proof -
  note i = init_LHS[OF assms(1)]
  have s: "setup_LHS (self_Nx pf * self_Ny pf * self_Nz pf) (self_Ny pf) (self_Nz pf)
             (self_dx pf) (self_dy pf) (self_dz pf) = Inr (self_LHS pf)"
    using i by simp
  from setup_LHS_Inr_dims[OF s] have n: "1 \<le> self_Nx pf" "2 \<le> self_Ny pf" "2 \<le> self_Nz pf"
    by simp_all
  from setup_LHS_ok[OF n, of "self_dx pf" "self_dy pf" "self_dz pf"] s
  have "self_LHS pf =
           spec_LHS (self_Nx pf) (self_Ny pf) (self_Nz pf) (self_dx pf) (self_dy pf) (self_dz pf)"
    by simp
  then show ?thesis using i(1) by (simp add: spec_LHS_def Let_def)
qed

theorem C2_operator_bands_witness:
  "init grid222 = Inr pf222 \<and>
   self_N pf222 = self_Nx pf222 * self_Ny pf222 * self_Nz pf222 \<and>
   dim (self_LHS pf222) = self_N pf222 \<and>
   self_LHS pf222 =
     spec_LHS (self_Nx pf222) (self_Ny pf222) (self_Nz pf222) (self_dx pf222) (self_dy pf222) (self_dz pf222) \<and>
   spec_LHS 2 2 2 1 1 1 =
     \<lparr> dim = 8,
       bands = [(- 4, [1, 1, 1, 1]), (- 2, [1, 1, 0, 0, 1, 1]), (- 1, [1, 0, 1, 0, 1, 0, 1]),
                (0, [- 6, - 6, - 6, - 6, - 6, - 6, - 6, - 6]),
                (1, [1, 0, 1, 0, 1, 0, 1]), (2, [1, 1, 0, 0, 1, 1]), (4, [1, 1, 1, 1])] \<rparr>"
proof -
  have ne: "self_dx pf222 \<noteq> 0" "self_dy pf222 \<noteq> 0" "self_dz pf222 \<noteq> 0"
    by (simp_all add: pf222_def)
  have e: "spec_LHS 2 2 2 1 1 1 =
     \<lparr> dim = 8,
       bands = [(- 4, [1, 1, 1, 1]), (- 2, [1, 1, 0, 0, 1, 1]), (- 1, [1, 0, 1, 0, 1, 0, 1]),
                (0, [- 6, - 6, - 6, - 6, - 6, - 6, - 6, - 6]),
                (1, [1, 0, 1, 0, 1, 0, 1]), (2, [1, 1, 0, 0, 1, 1]), (4, [1, 1, 1, 1])] \<rparr>"
    by code_simp
  show ?thesis
    using C2_operator_bands[OF init_grid222 ne] init_grid222 e by blast
qed

subsection \<open>The divergence query\<close>

text \<open>
  C8. \<open>div\<close> is a pure read: the instance after the call is the instance before it,
  every field included, and a second call with the same flag returns what the first
  returned.
\<close>

theorem C8_div_pure_read:
  "snd (div_pf self corrected) = self \<and>
   fst (div_pf (snd (div_pf self corrected)) corrected) = fst (div_pf self corrected)"
  by (simp add: div_pf_def)

text \<open>
  C9. On a freshly constructed instance, before any \<open>solve\<close>, \<open>div\<close> with
  \<open>corrected = False\<close> raises: the cached right-hand side is \<open>None\<close>.
\<close>

theorem C9_div_before_solve:
  assumes "init ff = Inr pf"
  shows "fst (div_pf pf False) = Inl AttributeError"
  using init_fresh[OF assms] by (simp add: div_pf_def attr_def ebind_def)

theorem C9_div_before_solve_witness:
  "init grid222 = Inr pf222 \<and> fst (div_pf pf222 False) = Inl AttributeError"
  using C9_div_before_solve[OF init_grid222] init_grid222 by simp

subsection \<open>Arrays, finite differences and flattening\<close>

lemma wf3_iff:
  "wf3 (nx, ny, nz) a \<longleftrightarrow>
     length a = nx \<and> (\<forall>i<nx. length (a ! i) = ny \<and> (\<forall>j<ny. length (a ! i ! j) = nz))"
  by (auto simp: wf3_def list_all_length)

lemma wf3_same_shape: "wf3 s a \<Longrightarrow> wf3 s b \<Longrightarrow> shape3 a = shape3 b"
  by (cases s; cases a; cases b; cases "hd a"; cases "hd b") (auto simp: wf3_def shape3_def)

lemma wf3_shape3: "wf3 (nx, ny, nz) a \<Longrightarrow> 0 < nx \<Longrightarrow> 0 < ny \<Longrightarrow> shape3 a = (nx, ny, nz)"
  by (cases a; cases "hd a") (auto simp: wf3_def shape3_def)

lemma wf3_zeros3: "wf3 s (zeros3 s)"
  by (cases s) (simp add: wf3_iff zeros3_def)


lemma length_central [simp]: "length (central dq h f) = length f - 2"
  by (simp add: central_def)

lemma central_nth: "i + 2 < length f \<Longrightarrow> central dq h f ! i = dq (2 * h) (f ! (i + 2)) (f ! i)"
proof -
  assume a: "i + 2 < length f"
  then have "i < length f - 2" by simp
  then have "[0..<length f - 2] ! i = i" by simp
  with a show ?thesis by (simp add: central_def)
qed

lemma length_assign_mid [simp]: "length (assign_mid g vals) = length g"
  by (simp add: assign_mid_def)

lemma assign_mid_nth:
  "i < length g \<Longrightarrow>
   assign_mid g vals ! i = (if 1 \<le> i \<and> i + 1 < length g then vals ! (i - 1) else g ! i)"
  by (simp add: assign_mid_def)

lemma assign_mid_edge:
  "i < length g \<Longrightarrow> \<not> (1 \<le> i \<and> i + 1 < length g) \<Longrightarrow> assign_mid g vals ! i = g ! i"
  by (simp only: assign_mid_nth if_False)

lemma assign_mid_inner:
  "1 \<le> i \<Longrightarrow> i + 1 < length g \<Longrightarrow> assign_mid g vals ! i = vals ! (i - 1)"
  by (simp add: assign_mid_def)

lemma length_fd_axis [simp]: "length (fd_axis dq h g f) = length g"
  by (simp add: fd_axis_def Let_def)

lemma fd_axis_nth:
  assumes "length g = length f" "2 \<le> length f" "i < length f"
  shows "fd_axis dq h g f ! i =
           (if i = 0 then dq h (f ! 1) (f ! 0)
            else if i = length f - 1 then dq h (f ! (length f - 1)) (f ! (length f - 2))
            else dq (2 * h) (f ! (i + 1)) (f ! (i - 1)))"
proof -
  consider "i = 0" | "i = length f - 1" "i \<noteq> 0" | "1 \<le> i" "i + 1 < length f"
    using assms by linarith
  then show ?thesis
  proof cases
    case 1
    then show ?thesis using assms by (simp add: fd_axis_def Let_def assign_mid_nth)
  next
    case 2
    have ig: "i < length g" "\<not> (1 \<le> i \<and> i + 1 < length g)" "i = length g - 1"
      using 2 assms by linarith+
    let ?g1 = "g[0 := dq h (f ! 1) (f ! 0)]"
    let ?g2 = "?g1[length g - 1 := dq h (f ! (length f - 1)) (f ! (length f - 2))]"
    have l2: "length ?g2 = length g" by simp
    have "fd_axis dq h g f ! i = assign_mid ?g2 (central dq h f) ! i"
      by (simp only: fd_axis_def Let_def)
    also have "\<dots> = ?g2 ! i"
      by (rule assign_mid_edge) (use ig l2 in simp_all)
    also have "\<dots> = dq h (f ! (length f - 1)) (f ! (length f - 2))"
      unfolding ig(3) by (rule nth_list_update_eq) (use ig in simp)
    finally show ?thesis using 2 by simp
  next
    case 3
    then have c: "central dq h f ! (i - 1) = dq (2 * h) (f ! (i + 1)) (f ! (i - 1))"
      using central_nth[of "i - 1" f dq h] by simp
    have ne: "i \<noteq> 0" "i \<noteq> length f - 1" "i < length g" "1 \<le> i \<and> i + 1 < length g"
      using 3 assms by linarith+
    let ?g1 = "g[0 := dq h (f ! 1) (f ! 0)]"
    let ?g2 = "?g1[length g - 1 := dq h (f ! (length f - 1)) (f ! (length f - 2))]"
    have l2: "length ?g2 = length g" by simp
    have "fd_axis dq h g f ! i = assign_mid ?g2 (central dq h f) ! i"
      by (simp only: fd_axis_def Let_def)
    also have "\<dots> = central dq h f ! (i - 1)"
      by (rule assign_mid_inner) (use ne(4) l2 in simp_all)
    finally show ?thesis using c ne(1,2) by (simp only: if_False)
  qed
qed

lemma dq1_nth: "k < length a \<Longrightarrow> k < length b \<Longrightarrow> dq1 h a b ! k = (a ! k - b ! k) / h"
  by (simp add: dq1_def dq0_def)

lemma length_dq1 [simp]: "length (dq1 h a b) = min (length a) (length b)"
  by (simp add: dq1_def)

lemma dq2_nth: "j < length a \<Longrightarrow> j < length b \<Longrightarrow> dq2 h a b ! j = dq1 h (a ! j) (b ! j)"
  by (simp add: dq2_def)

lemma length_dq2 [simp]: "length (dq2 h a b) = min (length a) (length b)"
  by (simp add: dq2_def)

text \<open>The three gradients of the model, on well-formed arrays.\<close>

lemma grad_x_nth:
  assumes "wf3 (nx, ny, nz) u" "2 \<le> nx" "i < nx" "j < ny" "k < nz"
  shows "fd_axis dq2 h (zeros3 (nx, ny, nz)) u ! i ! j ! k = fd_spec h nx (\<lambda>i'. u ! i' ! j ! k) i"
proof -
  have len: "length (zeros3 (nx, ny, nz)) = length u" "2 \<le> length u" "i < length u" "length u = nx"
    using assms by (simp_all add: wf3_iff zeros3_def)
  show ?thesis
    using assms unfolding fd_axis_nth[OF len(1-3)] len(4) fd_spec_def wf3_iff
    by (auto simp: dq2_nth dq1_nth)
qed

lemma grad_x_wf:
  assumes "wf3 (nx, ny, nz) u" "2 \<le> nx"
  shows "wf3 (nx, ny, nz) (fd_axis dq2 h (zeros3 (nx, ny, nz)) u)"
proof -
  have len: "length (zeros3 (nx, ny, nz)) = length u" "2 \<le> length u" "length u = nx"
    using assms by (simp_all add: wf3_iff zeros3_def)
  show ?thesis
    unfolding wf3_iff
  proof (intro conjI allI impI)
    show "length (fd_axis dq2 h (zeros3 (nx, ny, nz)) u) = nx" by (simp add: zeros3_def)
  next
    fix i assume i: "i < nx"
    then show "length (fd_axis dq2 h (zeros3 (nx, ny, nz)) u ! i) = ny"
      using assms len fd_axis_nth[OF len(1,2), of i dq2 h] by (auto simp: wf3_iff)
  next
    fix i j assume i: "i < nx" and j: "j < ny"
    then show "length (fd_axis dq2 h (zeros3 (nx, ny, nz)) u ! i ! j) = nz"
      using assms len fd_axis_nth[OF len(1,2), of i dq2 h] by (auto simp: wf3_iff dq2_nth)
  qed
qed

lemma grad_y_nth:
  assumes "wf3 (nx, ny, nz) v" "2 \<le> ny" "i < nx" "j < ny" "k < nz"
  shows "map (\<lambda>(g, f). fd_axis dq1 h g f) (zip (zeros3 (nx, ny, nz)) v) ! i ! j ! k
           = fd_spec h ny (\<lambda>j'. v ! i ! j' ! k) j"
proof -
  have len: "length (zeros3 (nx, ny, nz) ! i) = length (v ! i)" "2 \<le> length (v ! i)"
    "j < length (v ! i)" "length (v ! i) = ny" "length v = nx"
    using assms by (simp_all add: wf3_iff zeros3_def)
  have row: "map (\<lambda>(g, f). fd_axis dq1 h g f) (zip (zeros3 (nx, ny, nz)) v) ! i
          = fd_axis dq1 h (zeros3 (nx, ny, nz) ! i) (v ! i)"
    using assms len by (simp add: zeros3_def)
  show ?thesis
    unfolding row fd_axis_nth[OF len(1-3)] len(4) fd_spec_def
    using assms by (auto simp: wf3_iff dq1_nth)
qed

lemma grad_y_wf:
  assumes "wf3 (nx, ny, nz) v" "2 \<le> ny"
  shows "wf3 (nx, ny, nz) (map (\<lambda>(g, f). fd_axis dq1 h g f) (zip (zeros3 (nx, ny, nz)) v))"
  unfolding wf3_iff
proof (intro conjI allI impI)
  show "length (map (\<lambda>(g, f). fd_axis dq1 h g f) (zip (zeros3 (nx, ny, nz)) v)) = nx"
    using assms by (simp add: wf3_iff zeros3_def)
next
  fix i assume i: "i < nx"
  then show "length (map (\<lambda>(g, f). fd_axis dq1 h g f) (zip (zeros3 (nx, ny, nz)) v) ! i) = ny"
    using assms by (simp add: wf3_iff zeros3_def)
next
  fix i j assume i: "i < nx" and j: "j < ny"
  have len: "length (zeros3 (nx, ny, nz) ! i) = length (v ! i)" "2 \<le> length (v ! i)"
    "j < length (v ! i)" "length (v ! i) = ny" "length v = nx"
    using assms i j by (simp_all add: wf3_iff zeros3_def)
  have row: "map (\<lambda>(g, f). fd_axis dq1 h g f) (zip (zeros3 (nx, ny, nz)) v) ! i
          = fd_axis dq1 h (zeros3 (nx, ny, nz) ! i) (v ! i)"
    using assms len i by (simp add: zeros3_def)
  show "length (map (\<lambda>(g, f). fd_axis dq1 h g f) (zip (zeros3 (nx, ny, nz)) v) ! i ! j) = nz"
    unfolding row fd_axis_nth[OF len(1-3)] len(4)
    using assms i j by (auto simp: wf3_iff)
qed

lemma grad_z_row:
  assumes "wf3 (nx, ny, nz) w" "i < nx" "j < ny"
  shows "map (\<lambda>(gp, fp). map (\<lambda>(g, f). fd_axis dq0 h g f) (zip gp fp)) (zip (zeros3 (nx, ny, nz)) w) ! i ! j
           = fd_axis dq0 h (replicate nz 0) (w ! i ! j)"
  using assms by (simp add: wf3_iff zeros3_def)

lemma grad_z_nth:
  assumes "wf3 (nx, ny, nz) w" "2 \<le> nz" "i < nx" "j < ny" "k < nz"
  shows "map (\<lambda>(gp, fp). map (\<lambda>(g, f). fd_axis dq0 h g f) (zip gp fp)) (zip (zeros3 (nx, ny, nz)) w) ! i ! j ! k
           = fd_spec h nz (\<lambda>k'. w ! i ! j ! k') k"
proof -
  have len: "length (replicate nz (0::real)) = length (w ! i ! j)" "2 \<le> length (w ! i ! j)"
    "k < length (w ! i ! j)" "length (w ! i ! j) = nz"
    using assms by (simp_all add: wf3_iff)
  show ?thesis
    unfolding grad_z_row[OF assms(1,3,4)] fd_axis_nth[OF len(1-3)] len(4) fd_spec_def
    by (simp add: dq0_def)
qed

lemma grad_z_wf:
  assumes "wf3 (nx, ny, nz) w" "2 \<le> nz"
  shows "wf3 (nx, ny, nz) (map (\<lambda>(gp, fp). map (\<lambda>(g, f). fd_axis dq0 h g f) (zip gp fp)) (zip (zeros3 (nx, ny, nz)) w))"
  unfolding wf3_iff
proof (intro conjI allI impI)
  show "length (map (\<lambda>(gp, fp). map (\<lambda>(g, f). fd_axis dq0 h g f) (zip gp fp)) (zip (zeros3 (nx, ny, nz)) w)) = nx"
    using assms by (simp add: wf3_iff zeros3_def)
next
  fix i assume i: "i < nx"
  then show "length (map (\<lambda>(gp, fp). map (\<lambda>(g, f). fd_axis dq0 h g f) (zip gp fp)) (zip (zeros3 (nx, ny, nz)) w) ! i) = ny"
    using assms by (simp add: wf3_iff zeros3_def)
next
  fix i j assume i: "i < nx" and j: "j < ny"
  show "length (map (\<lambda>(gp, fp). map (\<lambda>(g, f). fd_axis dq0 h g f) (zip gp fp)) (zip (zeros3 (nx, ny, nz)) w) ! i ! j) = nz"
    unfolding grad_z_row[OF assms(1) i j] by simp
qed

text \<open>Sums and flattening.\<close>

lemma add3_wf:
  assumes "wf3 (nx, ny, nz) a" "wf3 (nx, ny, nz) b"
  shows "\<exists>c. add3 a b = Inr c \<and> wf3 (nx, ny, nz) c \<and>
             (\<forall>i<nx. \<forall>j<ny. \<forall>k<nz. c ! i ! j ! k = a ! i ! j ! k + b ! i ! j ! k)"
proof -
  have sh: "shape3 a = shape3 b" using assms by (rule wf3_same_shape)
  let ?c = "map (\<lambda>(pa, pb). map (\<lambda>(ra, rb). map (\<lambda>(p, q). p + q) (zip ra rb)) (zip pa pb)) (zip a b)"
  have "add3 a b = Inr ?c" using sh by (simp add: add3_def)
  moreover have "wf3 (nx, ny, nz) ?c" using assms by (auto simp: wf3_iff)
  moreover have "\<forall>i<nx. \<forall>j<ny. \<forall>k<nz. ?c ! i ! j ! k = a ! i ! j ! k + b ! i ! j ! k"
    using assms by (auto simp: wf3_iff)
  ultimately show ?thesis by blast
qed

lemma concat_uniform_length:
  "\<forall>xs \<in> set xss. length xs = m \<Longrightarrow> length (concat xss) = length xss * m"
  by (induction xss) simp_all

lemma concat_uniform_nth:
  "\<forall>xs \<in> set xss. length xs = m \<Longrightarrow> i < length xss \<Longrightarrow> j < m \<Longrightarrow>
     concat xss ! (i * m + j) = xss ! i ! j"
proof (induction xss arbitrary: i)
  case Nil
  then show ?case by simp
next
  case (Cons xs xss)
  show ?case
  proof (cases i)
    case 0
    then show ?thesis using Cons.prems by (simp add: nth_append)
  next
    case (Suc i')
    then have "concat (xs # xss) ! (i * m + j) = concat xss ! (i' * m + j)"
      using Cons.prems by (simp add: nth_append)
    then show ?thesis using Cons Suc by simp
  qed
qed

lemma ravel_length: "wf3 (nx, ny, nz) a \<Longrightarrow> length (ravel a) = nx * ny * nz"
proof -
  assume wf: "wf3 (nx, ny, nz) a"
  have "\<forall>xs \<in> set (map concat a). length xs = ny * nz"
    using wf by (auto simp: wf3_def list_all_iff intro!: concat_uniform_length)
  then have "length (concat (map concat a)) = length (map concat a) * (ny * nz)"
    by (rule concat_uniform_length)
  then show ?thesis using wf by (simp add: ravel_def wf3_def)
qed

lemma ravel_nth:
  assumes wf: "wf3 (nx, ny, nz) a" and "i < nx" "j < ny" "k < nz"
  shows "ravel a ! (i * ny * nz + j * nz + k) = a ! i ! j ! k"
proof -
  have u: "\<forall>xs \<in> set (map concat a). length xs = ny * nz"
    using wf by (auto simp: wf3_def list_all_iff intro!: concat_uniform_length)
  have jk: "j * nz + k < ny * nz"
  proof -
    have "j * nz + k < j * nz + nz" using assms by simp
    also have "\<dots> = (j + 1) * nz" by simp
    also have "\<dots> \<le> ny * nz" using assms by (intro mult_le_mono1) simp
    finally show ?thesis .
  qed
  have "ravel a ! (i * (ny * nz) + (j * nz + k)) = map concat a ! i ! (j * nz + k)"
    unfolding ravel_def using u assms jk wf by (intro concat_uniform_nth) (simp_all add: wf3_iff)
  also have "\<dots> = concat (a ! i) ! (j * nz + k)" using assms wf by (simp add: wf3_iff)
  also have "\<dots> = a ! i ! j ! k"
    using assms wf by (intro concat_uniform_nth) (auto simp: wf3_def list_all_iff dest: nth_mem)
  finally show ?thesis by (simp add: algebra_simps)
qed

subsection \<open>The right-hand side of a solve\<close>


lemma calc_gradients_wf:
  assumes d: "default_to ua (self_u0 self) = Inr u" "default_to va (self_v0 self) = Inr v"
      "default_to wa (self_w0 self) = Inr w"
    and u0: "self_u0 self = Some u0"
    and wf: "wf3 (nx, ny, nz) u0" "wf3 (nx, ny, nz) u" "wf3 (nx, ny, nz) v" "wf3 (nx, ny, nz) w"
    and n: "2 \<le> nx" "2 \<le> ny" "2 \<le> nz"
  shows "calc_gradients self ua va wa =
           Inr (fd_axis dq2 (self_dx self) (zeros3 (nx, ny, nz)) u,
                map (\<lambda>(g, f). fd_axis dq1 (self_dy self) g f) (zip (zeros3 (nx, ny, nz)) v),
                map (\<lambda>(gp, fp). map (\<lambda>(g, f). fd_axis dq0 (self_dz self) g f) (zip gp fp))
                  (zip (zeros3 (nx, ny, nz)) w))"
proof -
  have sh: "shape3 u0 = (nx, ny, nz)" "shape3 u = (nx, ny, nz)" "shape3 v = (nx, ny, nz)"
    "shape3 w = (nx, ny, nz)"
    using wf n by (simp_all add: wf3_shape3)
  have lu: "\<not> length u < 2" using wf n by (simp add: wf3_iff)
  have d1: "default_to ua (Some u0) = Inr u" using d(1) u0 by simp
  show ?thesis
    unfolding calc_gradients_def
    using n by (simp add: d1 d(2,3) u0 ebind_def attr_def Let_def sh lu)
qed

lemma update_RHS_wf:
  assumes f: "self_u0 self = Some u0" "self_v0 self = Some v0" "self_w0 self = Some w0"
    and wf: "wf3 (nx, ny, nz) u0" "wf3 (nx, ny, nz) v0" "wf3 (nx, ny, nz) w0"
    and n: "2 \<le> nx" "2 \<le> ny" "2 \<le> nz"
  shows "\<exists>D. update_RHS self = Inr (self\<lparr>self_RHS := Some (ravel D)\<rparr>) \<and> wf3 (nx, ny, nz) D \<and>
             (\<forall>i<nx. \<forall>j<ny. \<forall>k<nz.
                D ! i ! j ! k =
                  divergence_spec (self_dx self) (self_dy self) (self_dz self) (nx, ny, nz) u0 v0 w0 i j k)"
proof -
  let ?gx = "fd_axis dq2 (self_dx self) (zeros3 (nx, ny, nz)) u0"
  let ?gy = "map (\<lambda>(g, f). fd_axis dq1 (self_dy self) g f) (zip (zeros3 (nx, ny, nz)) v0)"
  let ?gz = "map (\<lambda>(gp, fp). map (\<lambda>(g, f). fd_axis dq0 (self_dz self) g f) (zip gp fp))
                  (zip (zeros3 (nx, ny, nz)) w0)"
  have cg: "calc_gradients self None None None = Inr (?gx, ?gy, ?gz)"
    by (rule calc_gradients_wf[OF _ _ _ f(1) wf(1) wf n]) (simp_all add: default_to_def attr_def f)
  have wx: "wf3 (nx, ny, nz) ?gx" by (rule grad_x_wf[OF wf(1) n(1)])
  have wy: "wf3 (nx, ny, nz) ?gy" by (rule grad_y_wf[OF wf(2) n(2)])
  have wz: "wf3 (nx, ny, nz) ?gz" by (rule grad_z_wf[OF wf(3) n(3)])
  from add3_wf[OF wx wy] obtain c1 where c1: "add3 ?gx ?gy = Inr c1" "wf3 (nx, ny, nz) c1"
    "\<forall>i<nx. \<forall>j<ny. \<forall>k<nz. c1 ! i ! j ! k = ?gx ! i ! j ! k + ?gy ! i ! j ! k" by blast
  from add3_wf[OF c1(2) wz] obtain c2 where c2: "add3 c1 ?gz = Inr c2" "wf3 (nx, ny, nz) c2"
    "\<forall>i<nx. \<forall>j<ny. \<forall>k<nz. c2 ! i ! j ! k = c1 ! i ! j ! k + ?gz ! i ! j ! k" by blast
  have "update_RHS self = Inr (self\<lparr>self_RHS := Some (ravel c2)\<rparr>)"
    by (simp add: update_RHS_def cg ebind_def set_RHS_def c1(1) c2(1))
  moreover have "\<forall>i<nx. \<forall>j<ny. \<forall>k<nz.
      c2 ! i ! j ! k = divergence_spec (self_dx self) (self_dy self) (self_dz self) (nx, ny, nz) u0 v0 w0 i j k"
    using c1(3) c2(3) grad_x_nth[OF wf(1) n(1)] grad_y_nth[OF wf(2) n(2)] grad_z_nth[OF wf(3) n(3)]
    by (simp add: divergence_spec_def)
  ultimately show ?thesis using c2(2) by blast
qed

lemma solve_wf:
  assumes wf: "wf3 (nx, ny, nz) u_wake" "\<forall>v. v_wake = Some v \<longrightarrow> wf3 (nx, ny, nz) v"
      "\<forall>w. w_wake = Some w \<longrightarrow> wf3 (nx, ny, nz) w"
    and n: "2 \<le> nx" "2 \<le> ny" "2 \<le> nz"
    and v0: "v0 = (case v_wake of None \<Rightarrow> zeros3 (nx, ny, nz) | Some v \<Rightarrow> v)"
    and w0: "w0 = (case w_wake of None \<Rightarrow> zeros3 (nx, ny, nz) | Some w \<Rightarrow> w)"
  shows "\<exists>D. wf3 (nx, ny, nz) D \<and>
             (\<forall>i<nx. \<forall>j<ny. \<forall>k<nz.
                D ! i ! j ! k =
                  divergence_spec (self_dx self) (self_dy self) (self_dz self) (nx, ny, nz) u_wake v0 w0 i j k) \<and>
             solve sv self u_wake v_wake w_wake reg A tol =
               ebind (sv (self_LHS self) (map (\<lambda>r. r / A) (ravel D)) (replicate (self_N self) 0) tol tol)
                 (\<lambda>soln. solve_after_cg
                    (self\<lparr>self_u0 := Some u_wake, self_v0 := Some v0, self_w0 := Some w0,
                          self_RHS := Some (ravel D)\<rparr>) soln reg A)"
proof -
  have sh: "shape3 u_wake = (nx, ny, nz)" using wf(1) n by (simp add: wf3_shape3)
  have wv: "wf3 (nx, ny, nz) v0" using wf(2) v0 by (cases v_wake) (simp_all add: wf3_zeros3)
  have ww: "wf3 (nx, ny, nz) w0" using wf(3) w0 by (cases w_wake) (simp_all add: wf3_zeros3)
  let ?s = "self\<lparr>self_u0 := Some u_wake, self_v0 := Some v0, self_w0 := Some w0\<rparr>"
  from update_RHS_wf[of ?s u_wake v0 w0 nx ny nz, OF _ _ _ wf(1) wv ww n]
  obtain D where D: "update_RHS ?s = Inr (?s\<lparr>self_RHS := Some (ravel D)\<rparr>)" "wf3 (nx, ny, nz) D"
    "\<forall>i<nx. \<forall>j<ny. \<forall>k<nz.
       D ! i ! j ! k = divergence_spec (self_dx ?s) (self_dy ?s) (self_dz ?s) (nx, ny, nz) u_wake v0 w0 i j k"
    by auto
  have ev: "(case v_wake of None \<Rightarrow> zeros3 (shape3 u_wake) | Some v \<Rightarrow> v) = v0"
    and ew: "(case w_wake of None \<Rightarrow> zeros3 (shape3 u_wake) | Some w \<Rightarrow> w) = w0"
    by (simp_all add: v0 w0 sh split: option.splits)
  have "solve sv self u_wake v_wake w_wake reg A tol =
               ebind (sv (self_LHS self) (map (\<lambda>r. r / A) (ravel D)) (replicate (self_N self) 0) tol tol)
                 (\<lambda>soln. solve_after_cg (?s\<lparr>self_RHS := Some (ravel D)\<rparr>) soln reg A)"
    unfolding solve_def Let_def ev ew
    using D(1) by (simp add: ebind_def attr_def)
  then show ?thesis using D(2,3) by auto
qed


lemma reshape3_wf:
  assumes "reshape3 (nx, ny, nz) xs = Inr p"
  shows "wf3 (nx, ny, nz) p"
    and "i < nx \<Longrightarrow> j < ny \<Longrightarrow> k < nz \<Longrightarrow> p ! i ! j ! k = xs ! (i * ny * nz + j * nz + k)"
  using assms by (auto simp: reshape3_def wf3_iff split: if_splits)


text \<open>
  C4. For a predictor of shape \<open>(nx, ny, nz)\<close> with two nodes at least along each axis
  (\<open>v0\<close> and \<open>w0\<close> are the supplied components, or zeros when omitted), the
  right-hand side has length \<open>nx * ny * nz\<close>, its entry at the row-major position
  \<open>i * ny * nz + j * nz + k\<close> (z fastest) is the sum of the three finite differences
  of the specification at node \<open>(i, j, k)\<close>, and \<open>solve\<close> is the call of the
  solver on the operator, this vector divided by \<open>A\<close> and a zero initial guess,
  followed by the rest of \<open>solve\<close> on what the solver returned.
\<close>

theorem C4_rhs_is_divergence:
  assumes wf: "wf3 (nx, ny, nz) u_wake" "\<forall>v. v_wake = Some v \<longrightarrow> wf3 (nx, ny, nz) v"
      "\<forall>w. w_wake = Some w \<longrightarrow> wf3 (nx, ny, nz) w"
    and n: "2 \<le> nx" "2 \<le> ny" "2 \<le> nz"
    and v0: "v0 = (case v_wake of None \<Rightarrow> zeros3 (nx, ny, nz) | Some v \<Rightarrow> v)"
    and w0: "w0 = (case w_wake of None \<Rightarrow> zeros3 (nx, ny, nz) | Some w \<Rightarrow> w)"
  shows "\<exists>rhs. length rhs = nx * ny * nz \<and>
             (\<forall>i<nx. \<forall>j<ny. \<forall>k<nz.
                rhs ! (i * ny * nz + j * nz + k) =
                  divergence_spec (self_dx self) (self_dy self) (self_dz self) (nx, ny, nz)
                    u_wake v0 w0 i j k) \<and>
             solve sv self u_wake v_wake w_wake reg A tol =
               ebind (sv (self_LHS self) (map (\<lambda>r. r / A) rhs) (replicate (self_N self) 0) tol tol)
                 (\<lambda>soln. solve_after_cg
                    (self\<lparr>self_u0 := Some u_wake, self_v0 := Some v0, self_w0 := Some w0,
                          self_RHS := Some rhs\<rparr>) soln reg A)"
proof -
  from solve_wf[OF wf n v0 w0, of self sv reg A tol]
  obtain D where D: "wf3 (nx, ny, nz) D"
    "\<forall>i<nx. \<forall>j<ny. \<forall>k<nz.
       D ! i ! j ! k = divergence_spec (self_dx self) (self_dy self) (self_dz self) (nx, ny, nz) u_wake v0 w0 i j k"
    "solve sv self u_wake v_wake w_wake reg A tol =
               ebind (sv (self_LHS self) (map (\<lambda>r. r / A) (ravel D)) (replicate (self_N self) 0) tol tol)
                 (\<lambda>soln. solve_after_cg
                    (self\<lparr>self_u0 := Some u_wake, self_v0 := Some v0, self_w0 := Some w0,
                          self_RHS := Some (ravel D)\<rparr>) soln reg A)"
    by blast
  have "length (ravel D) = nx * ny * nz" by (rule ravel_length[OF D(1)])
  moreover have "\<forall>i<nx. \<forall>j<ny. \<forall>k<nz.
      ravel D ! (i * ny * nz + j * nz + k) =
        divergence_spec (self_dx self) (self_dy self) (self_dz self) (nx, ny, nz) u_wake v0 w0 i j k"
    using D(2) ravel_nth[OF D(1)] by simp
  ultimately show ?thesis using D(3) by blast
qed

theorem C4_rhs_is_divergence_witness:
  "wf3 (2, 2, 2) cex7_u \<and> wf3 (2, 2, 2) cex7_v \<and>
   (\<exists>rhs. length rhs = 2 * 2 * 2 \<and>
      (\<forall>i<2. \<forall>j<2. \<forall>k<2.
         rhs ! (i * 2 * 2 + j * 2 + k) =
           divergence_spec (self_dx pf222) (self_dy pf222) (self_dz pf222) (2, 2, 2)
             cex7_u cex7_v (zeros3 (2, 2, 2)) i j k) \<and>
      solve cg pf222 cex7_u (Some cex7_v) None None 1 (1 / 10 ^ 8) =
        ebind (cg (self_LHS pf222) (map (\<lambda>r. r / 1) rhs) (replicate (self_N pf222) 0) (1 / 10 ^ 8) (1 / 10 ^ 8))
          (\<lambda>soln. solve_after_cg
             (pf222\<lparr>self_u0 := Some cex7_u, self_v0 := Some cex7_v, self_w0 := Some (zeros3 (2, 2, 2)),
                    self_RHS := Some rhs\<rparr>) soln None 1))"
proof -
  have wu: "wf3 (2, 2, 2) cex7_u" and wv: "wf3 (2, 2, 2) cex7_v" by code_simp+
  have hv: "\<forall>v. Some cex7_v = Some v \<longrightarrow> wf3 (2, 2, 2) v" using wv by simp
  have hw: "\<forall>w. (None::arr3 option) = Some w \<longrightarrow> wf3 (2, 2, 2) w" by simp
  show ?thesis
    using C4_rhs_is_divergence[OF wu hv hw, of cex7_v "zeros3 (2, 2, 2)" pf222 cg None 1 "1 / 10 ^ 8"]
      wu wv by simp
qed

subsection \<open>The correction of the velocity\<close>

lemma length_sub_mid [simp]: "length (sub_mid sub g vals) = length g"
  by (simp add: sub_mid_def)

lemma sub_mid_nth:
  "i < length g \<Longrightarrow>
   sub_mid sub g vals ! i =
     (if 1 \<le> i \<and> i + 1 < length g then sub (g ! i) (vals ! (i - 1)) else g ! i)"
  by (simp add: sub_mid_def)

lemma ms1_nth: "k < length a \<Longrightarrow> k < length b \<Longrightarrow> ms1 A a b ! k = a ! k - A * b ! k"
  by (simp add: ms1_def ms0_def)

lemma length_ms1 [simp]: "length (ms1 A a b) = min (length a) (length b)"
  by (simp add: ms1_def)

lemma ms2_nth: "j < length a \<Longrightarrow> j < length b \<Longrightarrow> ms2 A a b ! j = ms1 A (a ! j) (b ! j)"
  by (simp add: ms2_def)

lemma length_ms2 [simp]: "length (ms2 A a b) = min (length a) (length b)"
  by (simp add: ms2_def)


lemma corr_u_nth:
  assumes "wf3 (nx, ny, nz) u" "wf3 (nx, ny, nz) p" "i < nx" "j < ny" "k < nz"
  shows "sub_mid (ms2 A) u (central dq2 h p) ! i ! j ! k =
           (if 1 \<le> i \<and> i + 1 < nx
            then u ! i ! j ! k - A * ((p ! (i + 1) ! j ! k - p ! (i - 1) ! j ! k) / (2 * h))
            else u ! i ! j ! k)"
  using assms unfolding wf3_iff
  by (auto simp: sub_mid_nth central_nth ms2_nth ms1_nth dq2_nth dq1_nth)


lemma corr_v_nth:
  assumes "wf3 (nx, ny, nz) v" "wf3 (nx, ny, nz) p" "i < nx" "j < ny" "k < nz"
  shows "map (\<lambda>(g, d). sub_mid (ms1 A) g d) (zip v (map (central dq1 h) p)) ! i ! j ! k =
           (if 1 \<le> j \<and> j + 1 < ny
            then v ! i ! j ! k - A * ((p ! i ! (j + 1) ! k - p ! i ! (j - 1) ! k) / (2 * h))
            else v ! i ! j ! k)"
  using assms unfolding wf3_iff
  by (auto simp: sub_mid_nth central_nth ms1_nth dq1_nth)


lemma corr_w_nth:
  assumes "wf3 (nx, ny, nz) w" "wf3 (nx, ny, nz) p" "i < nx" "j < ny" "k < nz"
  shows "map (\<lambda>(gp, dp). map (\<lambda>(g, d). sub_mid (ms0 A) g d) (zip gp dp)) (zip w (map (map (central dq0 h)) p)) ! i ! j ! k =
           (if 1 \<le> k \<and> k + 1 < nz
            then w ! i ! j ! k - A * ((p ! i ! j ! (k + 1) - p ! i ! j ! (k - 1)) / (2 * h))
            else w ! i ! j ! k)"
  using assms unfolding wf3_iff
  by (auto simp: sub_mid_nth central_nth ms0_def dq0_def)

lemma correct_fields_eq:
  assumes "self_p self = Some p" "self_u0 self = Some u0" "self_v0 self = Some v0" "self_w0 self = Some w0"
    and "shape3 u0 = shape3 p" "shape3 v0 = shape3 p" "shape3 w0 = shape3 p"
  shows "correct_fields self A =
           Inr (self\<lparr>self_u := Some (sub_mid (ms2 A) u0 (central dq2 (self_dx self) p)),
                     self_v := Some (map (\<lambda>(g, d). sub_mid (ms1 A) g d) (zip v0 (map (central dq1 (self_dy self)) p))),
                     self_w := Some (map (\<lambda>(gp, dp). map (\<lambda>(g, d). sub_mid (ms0 A) g d) (zip gp dp)) (zip w0 (map (map (central dq0 (self_dz self))) p)))\<rparr>)"
  using assms by (simp add: correct_fields_def ebind_def attr_def Let_def)

subsection \<open>The smoothing patch\<close>

lemma upstream_index_ge: "upstream_index xs t = Inr i0 \<Longrightarrow> - 1 \<le> i0"
  by (auto simp: upstream_index_def ebind_def split: sum.splits if_splits)

lemma blend_interpolant: "blend c f1 f0 = interpolant c f0 f1"
proof -
  have row: "map (\<lambda>(b, a). c * (b - a) / 3 + a) (zip r1 r0) = map (\<lambda>(a, b). a + c * (b - a) / 3) (zip r0 r1)" for r0 r1 :: "real list"
    by (induction r0 r1 rule: list_induct2') (simp_all add: add.commute)
  show ?thesis
    unfolding blend_def interpolant_def
    by (induction f0 f1 rule: list_induct2') (simp_all add: row)
qed

lemma py_index_Inr: "- int n \<le> i \<Longrightarrow> i < int n \<Longrightarrow> py_index n i = Inr (wrap n i)"
  by (simp add: py_index_def)

text \<open>
  C7 (amended). When the array \<open>u\<close> has three x-slices at least and the upstream-adjusted
  index \<open>i0\<close> has \<open>i0 + 2\<close> inside the array, \<open>interp\<close> succeeds and overwrites
  exactly the slices \<open>i0\<close> and \<open>i0 + 1\<close> (as Python indexes them, negative
  indices counting from the end) with \<open>f0 + (f1 - f0) / 3\<close> and
  \<open>f0 + 2 * (f1 - f0) / 3\<close>, where \<open>f0\<close> and \<open>f1\<close> are the slices \<open>i0 - 1\<close> and
  \<open>i0 + 2\<close> of \<open>u\<close> before the call; every other slice of \<open>u\<close> and every other
  field of the instance (\<open>v\<close>, \<open>w\<close>, \<open>p\<close> among them) is unchanged.
\<close>

theorem C7_interp_patch:
  assumes xs: "sl_x (reg_x reg) = Inr xs"
    and i0: "upstream_index xs (x1 (reg_coords reg)) = Inr i0"
    and u: "self_u self = Some u"
    and n3: "3 \<le> length u"
    and hi: "i0 + 2 < int (length u)"
  shows "interp self reg =
           Inr (self\<lparr>self_u := Some (u[wrap (length u) i0 :=
                                          interpolant 1 (u ! wrap (length u) (i0 - 1)) (u ! wrap (length u) (i0 + 2)),
                                        wrap (length u) (i0 + 1) :=
                                          interpolant 2 (u ! wrap (length u) (i0 - 1)) (u ! wrap (length u) (i0 + 2))])\<rparr>)"
proof -
  let ?n = "length u"
  have lo: "- 1 \<le> i0" by (rule upstream_index_ge[OF i0])
  have p0: "py_index ?n (i0 - 1) = Inr (wrap ?n (i0 - 1))"
    and p1: "py_index ?n (i0 + 2) = Inr (wrap ?n (i0 + 2))"
    and p2: "py_index ?n i0 = Inr (wrap ?n i0)"
    and p3: "py_index ?n (i0 + 1) = Inr (wrap ?n (i0 + 1))"
    using lo hi n3 by (simp_all add: py_index_def)
  have d0: "wrap ?n i0 \<noteq> wrap ?n (i0 - 1)" and d1: "wrap ?n i0 \<noteq> wrap ?n (i0 + 2)"
    using lo hi n3 by (auto simp: wrap_def)
  show ?thesis
    unfolding interp_def
    by (simp add: xs i0 u ebind_def attr_def p0 p1 p2 p3 Let_def blend_interpolant d0 d1)
qed

theorem C7_interp_patch_witness:
  "sl_x (reg_x (region grid422 (3 / 2))) = Inr [0, 1, 2, 3] \<and>
   upstream_index [0, 1, 2, 3] (3 / 2) = Inr 1 \<and>
   self_u (fst res422) = Some ex_u \<and>
   interp (fst res422) (region grid422 (3 / 2)) =
     Inr ((fst res422)\<lparr>self_u := Some [[[0, 0], [0, 0]], [[3, 3], [3, 3]], [[6, 6], [6, 6]], [[9, 9], [9, 9]]]\<rparr>)"
proof -
  have a: "sl_x (reg_x (region grid422 (3 / 2))) = Inr [0, 1, 2, 3]" by code_simp
  have b: "upstream_index [0, 1, 2, 3] (x1 (reg_coords (region grid422 (3 / 2)))) = Inr 1" by code_simp
  have b': "upstream_index [0, 1, 2, 3] (3 / 2) = Inr 1" by code_simp
  have c: "3 \<le> length ex_u" "1 + 2 < int (length ex_u)" by (simp_all add: ex_u_def)
  have d: "ex_u[wrap (length ex_u) 1 :=
                  interpolant 1 (ex_u ! wrap (length ex_u) (1 - 1)) (ex_u ! wrap (length ex_u) (1 + 2)),
                wrap (length ex_u) (1 + 1) :=
                  interpolant 2 (ex_u ! wrap (length ex_u) (1 - 1)) (ex_u ! wrap (length ex_u) (1 + 2))]
           = [[[0, 0], [0, 0]], [[3, 3], [3, 3]], [[6, 6], [6, 6]], [[9, 9], [9, 9]]]"
    by code_simp
  show ?thesis
    using C7_interp_patch[OF a b res422_u c] a b' res422_u unfolding d by simp
qed

text \<open>
  The patch as the claim states it fails on a grid of two x-slices with the target at
  the first node: the adjusted index is \<open>-1\<close>, \<open>f1\<close> is a view of slice 1, which
  the first assignment overwrites (slice \<open>-1\<close> is slice 1), and the second
  assignment reads the overwritten values. Slice 0 becomes 2/3 where the claim's
  formula on the slices before the call gives 2.
\<close>

theorem C7_interp_patch_counterexample:
  "map_sum id (fst \<circ> snd) (solve cg pf222 cex7_u (Some cex7_v) None None 1 (1 / 10 ^ 8)) = Inr cex7_u \<and>
   sl_x (reg_x (region grid222 0)) = Inr [0, 1] \<and>
   upstream_index [0, 1] 0 = Inr (- 1) \<and>
   map_sum id (fst \<circ> snd)
     (solve cg pf222 cex7_u (Some cex7_v) None (Some (region grid222 0)) 1 (1 / 10 ^ 8)) =
     Inr [[[2 / 3, 2 / 3], [2 / 3, 2 / 3]], [[1, 1], [1, 1]]] \<and>
   cex7_u[wrap 2 (- 1) := interpolant 1 (cex7_u ! wrap 2 (- 1 - 1)) (cex7_u ! wrap 2 (- 1 + 2)),
          wrap 2 (- 1 + 1) := interpolant 2 (cex7_u ! wrap 2 (- 1 - 1)) (cex7_u ! wrap 2 (- 1 + 2))] =
     [[[2, 2], [2, 2]], [[1, 1], [1, 1]]]"
  by code_simp



subsection \<open>Solve: correction, zero predictor, shapes\<close>

lemma solve_after_cg_None:
  assumes f: "self_u0 s = Some u0" "self_v0 s = Some v0" "self_w0 s = Some w0"
    and wf: "wf3 (nx, ny, nz) u0" "wf3 (nx, ny, nz) v0" "wf3 (nx, ny, nz) w0"
    and n: "0 < nx" "0 < ny"
    and flag: "snd soln = 0"
    and p: "reshape3 (nx, ny, nz) (fst soln) = Inr p"
  shows "solve_after_cg s soln None A =
           Inr (s\<lparr>self_p := Some p,
                   self_u := Some (sub_mid (ms2 A) u0 (central dq2 (self_dx s) p)),
                   self_v := Some (map (\<lambda>(g, d). sub_mid (ms1 A) g d) (zip v0 (map (central dq1 (self_dy s)) p))),
                   self_w := Some (map (\<lambda>(gp, dp). map (\<lambda>(g, d). sub_mid (ms0 A) g d) (zip gp dp))
                                     (zip w0 (map (map (central dq0 (self_dz s))) p))),
                   self_Nsolves := self_Nsolves s + 1\<rparr>,
                sub_mid (ms2 A) u0 (central dq2 (self_dx s) p),
                map (\<lambda>(g, d). sub_mid (ms1 A) g d) (zip v0 (map (central dq1 (self_dy s)) p)),
                map (\<lambda>(gp, dp). map (\<lambda>(g, d). sub_mid (ms0 A) g d) (zip gp dp))
                  (zip w0 (map (map (central dq0 (self_dz s))) p)))"
proof -
  have sh: "shape3 u0 = (nx, ny, nz)" using wf(1) n by (rule wf3_shape3)
  have wp: "wf3 (nx, ny, nz) p" using p by (rule reshape3_wf(1))
  have shp: "shape3 u0 = shape3 p" "shape3 v0 = shape3 p" "shape3 w0 = shape3 p"
    using wf wp by (auto intro: wf3_same_shape)
  have cf: "correct_fields (s\<lparr>self_p := Some p\<rparr>) A =
      Inr (s\<lparr>self_p := Some p,
             self_u := Some (sub_mid (ms2 A) u0 (central dq2 (self_dx s) p)),
             self_v := Some (map (\<lambda>(g, d). sub_mid (ms1 A) g d) (zip v0 (map (central dq1 (self_dy s)) p))),
             self_w := Some (map (\<lambda>(gp, dp). map (\<lambda>(g, d). sub_mid (ms0 A) g d) (zip gp dp))
                               (zip w0 (map (map (central dq0 (self_dz s))) p)))\<rparr>)"
    using correct_fields_eq[of "s\<lparr>self_p := Some p\<rparr>" p u0 v0 w0 A] f shp by simp
  show ?thesis
    unfolding solve_after_cg_def
    by (simp add: flag f sh p cf ebind_def attr_def Let_def)
qed

text \<open>
  C3 (amended). For every solve without smoothing, on a predictor of shape
  \<open>(nx, ny, nz)\<close> with two nodes at least along each axis, that returns: the stored
  pressure \<open>p\<close> has the predictor's shape, and each corrected component equals its
  predictor minus \<open>A\<close> times the central difference of \<open>p\<close> along the component's
  own axis (x for \<open>u\<close>, y for \<open>v\<close>, z for \<open>w\<close>) at the nodes with index
  \<open>1..n-2\<close> along that axis, for all indices along the other two axes; at the first and
  the last node along its own axis it equals the predictor.
\<close>

theorem C3_correction:
  assumes ok: "solve sv self u_wake v_wake w_wake None A tol = Inr (self', u, v, w)"
    and wf: "wf3 (nx, ny, nz) u_wake" "\<forall>v. v_wake = Some v \<longrightarrow> wf3 (nx, ny, nz) v"
      "\<forall>w. w_wake = Some w \<longrightarrow> wf3 (nx, ny, nz) w"
    and n: "2 \<le> nx" "2 \<le> ny" "2 \<le> nz"
    and v0: "v0 = (case v_wake of None \<Rightarrow> zeros3 (nx, ny, nz) | Some v \<Rightarrow> v)"
    and w0: "w0 = (case w_wake of None \<Rightarrow> zeros3 (nx, ny, nz) | Some w \<Rightarrow> w)"
  shows "\<exists>p. self_p self' = Some p \<and> wf3 (nx, ny, nz) p \<and>
             self_u self' = Some u \<and> self_v self' = Some v \<and> self_w self' = Some w \<and>
             (\<forall>i<nx. \<forall>j<ny. \<forall>k<nz.
                u ! i ! j ! k =
                  (if 1 \<le> i \<and> i + 1 < nx
                   then u_wake ! i ! j ! k -
                        A * ((p ! (i + 1) ! j ! k - p ! (i - 1) ! j ! k) / (2 * self_dx self))
                   else u_wake ! i ! j ! k) \<and>
                v ! i ! j ! k =
                  (if 1 \<le> j \<and> j + 1 < ny
                   then v0 ! i ! j ! k -
                        A * ((p ! i ! (j + 1) ! k - p ! i ! (j - 1) ! k) / (2 * self_dy self))
                   else v0 ! i ! j ! k) \<and>
                w ! i ! j ! k =
                  (if 1 \<le> k \<and> k + 1 < nz
                   then w0 ! i ! j ! k -
                        A * ((p ! i ! j ! (k + 1) - p ! i ! j ! (k - 1)) / (2 * self_dz self))
                   else w0 ! i ! j ! k))"
proof -
  have wv: "wf3 (nx, ny, nz) v0" using wf(2) v0 by (cases v_wake) (simp_all add: wf3_zeros3)
  have ww: "wf3 (nx, ny, nz) w0" using wf(3) w0 by (cases w_wake) (simp_all add: wf3_zeros3)
  from solve_wf[OF wf n v0 w0, of self sv None A tol]
  obtain D where D:
    "solve sv self u_wake v_wake w_wake None A tol =
       ebind (sv (self_LHS self) (map (\<lambda>r. r / A) (ravel D)) (replicate (self_N self) 0) tol tol)
         (\<lambda>soln. solve_after_cg
            (self\<lparr>self_u0 := Some u_wake, self_v0 := Some v0, self_w0 := Some w0,
                  self_RHS := Some (ravel D)\<rparr>) soln None A)"
    by blast
  let ?s = "self\<lparr>self_u0 := Some u_wake, self_v0 := Some v0, self_w0 := Some w0,
                  self_RHS := Some (ravel D)\<rparr>"
  from ok D obtain soln where soln: "solve_after_cg ?s soln None A = Inr (self', u, v, w)"
    by (auto simp: ebind_def split: sum.splits)
  have sh: "shape3 u_wake = (nx, ny, nz)" using wf(1) n by (simp add: wf3_shape3)
  from soln have flag: "snd soln = 0"
    by (auto simp: solve_after_cg_def split: if_splits)
  from soln flag obtain p where p: "reshape3 (nx, ny, nz) (fst soln) = Inr p"
    by (auto simp: solve_after_cg_def ebind_def attr_def sh split: sum.splits)
  have wp: "wf3 (nx, ny, nz) p" using p by (rule reshape3_wf(1))
  have pos: "0 < nx" "0 < ny" using n by simp_all
  note eq = solve_after_cg_None[of ?s u_wake v0 w0 nx ny nz soln p A, OF _ _ _ wf(1) wv ww pos flag p]
  from soln eq have
    s': "self_p self' = Some p" "self_u self' = Some u" "self_v self' = Some v" "self_w self' = Some w"
    and u: "u = sub_mid (ms2 A) u_wake (central dq2 (self_dx self) p)"
    and v: "v = map (\<lambda>(g, d). sub_mid (ms1 A) g d) (zip v0 (map (central dq1 (self_dy self)) p))"
    and w: "w = map (\<lambda>(gp, dp). map (\<lambda>(g, d). sub_mid (ms0 A) g d) (zip gp dp))
                  (zip w0 (map (map (central dq0 (self_dz self))) p))"
    by auto
  have "\<forall>i<nx. \<forall>j<ny. \<forall>k<nz.
                u ! i ! j ! k =
                  (if 1 \<le> i \<and> i + 1 < nx
                   then u_wake ! i ! j ! k -
                        A * ((p ! (i + 1) ! j ! k - p ! (i - 1) ! j ! k) / (2 * self_dx self))
                   else u_wake ! i ! j ! k) \<and>
                v ! i ! j ! k =
                  (if 1 \<le> j \<and> j + 1 < ny
                   then v0 ! i ! j ! k -
                        A * ((p ! i ! (j + 1) ! k - p ! i ! (j - 1) ! k) / (2 * self_dy self))
                   else v0 ! i ! j ! k) \<and>
                w ! i ! j ! k =
                  (if 1 \<le> k \<and> k + 1 < nz
                   then w0 ! i ! j ! k -
                        A * ((p ! i ! j ! (k + 1) - p ! i ! j ! (k - 1)) / (2 * self_dz self))
                   else w0 ! i ! j ! k)"
    unfolding u v w
    using corr_u_nth[OF wf(1) wp] corr_v_nth[OF wv wp] corr_w_nth[OF ww wp] by simp
  with s' wp show ?thesis by blast
qed

theorem C3_correction_witness:
  "solve cg pf422 ex_u (Some ex_v) None None 1 (1 / 10 ^ 8) = Inr res422 \<and>
   (\<exists>p. self_p (fst res422) = Some p \<and> wf3 (4, 2, 2) p \<and>
      self_u (fst res422) = Some (fst (snd res422)) \<and>
      (\<forall>i<4. \<forall>j<2. \<forall>k<2.
         fst (snd res422) ! i ! j ! k =
           (if 1 \<le> i \<and> i + 1 < 4
            then ex_u ! i ! j ! k - 1 * ((p ! (i + 1) ! j ! k - p ! (i - 1) ! j ! k) / (2 * self_dx pf422))
            else ex_u ! i ! j ! k)))"
proof -
  have ok: "solve cg pf422 ex_u (Some ex_v) None None 1 (1 / 10 ^ 8) =
      Inr (fst res422, fst (snd res422), fst (snd (snd res422)), snd (snd (snd res422)))"
    using solve422 by simp
  have wu: "wf3 (4, 2, 2) ex_u" and wv: "wf3 (4, 2, 2) ex_v" by code_simp+
  have hv: "\<forall>v. Some ex_v = Some v \<longrightarrow> wf3 (4, 2, 2) v" using wv by simp
  have hw: "\<forall>w. (None::arr3 option) = Some w \<longrightarrow> wf3 (4, 2, 2) w" by simp
  from C3_correction[OF ok wu hv hw, of ex_v "zeros3 (4, 2, 2)"]
  show ?thesis using solve422 by auto
qed

text \<open>
  The conjugate gradient model on a right-hand side that is an eigenvector of the
  matrix: one step gives the exact solution.
\<close>

lemma dot_scaled: "dot b (map (\<lambda>x. c * x) b) = c * dot b b"
  by (induction b) (simp_all add: dot_def algebra_simps)

lemma dot_nonneg: "0 \<le> dot b b"
  by (induction b) (simp_all add: dot_def)

lemma dot_zero_map: "dot (map (\<lambda>_. 0) b) (map (\<lambda>_. 0) b) = 0"
  by (induction b) (simp_all add: dot_def)

lemma sub_zeros: "map (\<lambda>(bk, yk). bk - yk) (zip b (replicate (length b) (0::real))) = b"
  by (induction b) simp_all

lemma cg_x_step:
  "map (\<lambda>(xk, pk). xk + a * pk) (zip (replicate (length b) (0::real)) b) = map (\<lambda>x. a * x) b"
  by (induction b) simp_all

lemma cg_r_step:
  "a * lam = (1::real) \<Longrightarrow>
   map (\<lambda>(rk, qk). rk - a * qk) (zip b (map (\<lambda>x. lam * x) b)) = map (\<lambda>_. 0) b"
  by (induction b) (simp_all add: mult.assoc[symmetric])

lemma cg_eigen:
  assumes len: "length b = dim M"
    and mv0: "matvec M (replicate (dim M) 0) = replicate (dim M) 0"
    and mvb: "matvec M b = map (\<lambda>x. lam * x) b"
    and lam: "lam \<noteq> 0"
    and bb: "dot b b \<noteq> 0"
    and tol: "0 < tol" "tol < 1" "tol ^ 2 \<le> dot b b"
  shows "cg M b (replicate (dim M) 0) tol tol = Inr (map (\<lambda>x. x / lam) b, 0)"
proof -
  let ?bb = "dot b b"
  let ?done = "\<lambda>r. norm_below r tol tol ?bb"
  have bpos: "0 < ?bb" using bb dot_nonneg[of b] by simp
  have "tol * tol < 1 * 1" using tol by (intro mult_strict_mono) simp_all
  then have t2: "tol ^ 2 < 1" by (simp add: power2_eq_square)
  have "tol ^ 2 * ?bb < 1 * ?bb" using t2 bpos by (intro mult_strict_right_mono)
  then have nd: "\<not> ?done b" using tol by (simp add: norm_below_def)
  have bne: "b \<noteq> []" using bb by (auto simp: dot_def)
  then obtain k where k: "10 * length b = Suc (Suc k)"
    by (cases b) (simp_all add: numeral_eq_Suc)
  have r0: "map (\<lambda>(bk, yk). bk - yk) (zip b (matvec M (replicate (dim M) 0))) = b"
    using sub_zeros[of b] by (simp add: mv0 len)
  let ?x1 = "map (\<lambda>(xk, pk). xk + ?bb / dot b (matvec M b) * pk) (zip (replicate (dim M) 0) b)"
  let ?r1 = "map (\<lambda>(rk, qk). rk - ?bb / dot b (matvec M b) * qk) (zip b (matvec M b))"
  have alpha: "?bb / dot b (matvec M b) = 1 / lam"
    unfolding mvb dot_scaled using bpos lam by simp
  have x1: "?x1 = map (\<lambda>x. x / lam) b"
    unfolding alpha len[symmetric] cg_x_step by simp
  have r1: "?r1 = map (\<lambda>_. 0) b"
    unfolding alpha unfolding mvb by (rule cg_r_step) (use lam in simp)
  have d1: "?done ?r1" unfolding r1 using tol by (simp add: norm_below_def dot_zero_map)
  have step1: "cg_loop (Suc (Suc k)) (Suc (Suc k)) M ?done (replicate (dim M) 0) b [] 0
        = cg_loop (Suc k) (Suc (Suc k)) M ?done ?x1 ?r1 b ?bb"
    using nd by (simp add: Let_def)
  have step2: "cg_loop (Suc k) (Suc (Suc k)) M ?done ?x1 ?r1 b ?bb = (?x1, 0)"
    using d1 by simp
  have k': "10 * dim M = Suc (Suc k)" using k len by simp
  have "cg M b (replicate (dim M) 0) tol tol =
          Inr (cg_loop (Suc (Suc k)) (Suc (Suc k)) M ?done (replicate (dim M) 0) b [] 0)"
    unfolding cg_def using len bb
    by (simp add: Let_def r0 k' del: cg_loop.simps)
  also have "\<dots> = Inr (?x1, 0)" by (simp only: step1 step2)
  finally show ?thesis by (simp only: x1)
qed

lemma init_grid322: "init grid322 = Inr pf322"
  by code_simp

lemma pf322_fields:
  "self_N pf322 = 12" "dim (self_LHS pf322) = 12"
  by code_simp+

lemma pf322_matvec:
  "matvec (self_LHS pf322) (replicate 12 0) = replicate 12 0"
  "matvec (self_LHS pf322) cex3_rhs = map (\<lambda>x. - 4 * x) cex3_rhs"
  by code_simp+

lemma pf322_update_RHS:
  "update_RHS (pf322\<lparr>self_u0 := Some cex3_u, self_v0 := Some (zeros3 (3, 2, 2)),
                      self_w0 := Some (zeros3 (3, 2, 2))\<rparr>) =
     Inr (pf322\<lparr>self_u0 := Some cex3_u, self_v0 := Some (zeros3 (3, 2, 2)),
                self_w0 := Some (zeros3 (3, 2, 2)), self_RHS := Some cex3_rhs\<rparr>)"
  by code_simp

lemma solve_unfold:
  assumes "update_RHS (self\<lparr>self_u0 := Some u_wake,
                             self_v0 := Some (case v_wake of None \<Rightarrow> zeros3 (shape3 u_wake) | Some v \<Rightarrow> v),
                             self_w0 := Some (case w_wake of None \<Rightarrow> zeros3 (shape3 u_wake) | Some w \<Rightarrow> w)\<rparr>)
             = Inr s1"
    and "self_RHS s1 = Some rhs"
    and "sv (self_LHS s1) (map (\<lambda>r. r / A) rhs) (replicate (self_N s1) 0) tol tol = Inr soln"
  shows "solve sv self u_wake v_wake w_wake reg A tol = solve_after_cg s1 soln reg A"
  using assms by (simp add: solve_def Let_def ebind_def attr_def)

lemma cg_pf322:
  "cg (self_LHS pf322) cex3_rhs (replicate 12 0) (1 / 10 ^ 8) (1 / 10 ^ 8) =
     Inr (map (\<lambda>x. x / (- 4)) cex3_rhs, 0)"
proof -
  have len: "length cex3_rhs = dim (self_LHS pf322)" by (simp add: pf322_fields cex3_rhs_def)
  have bb: "dot cex3_rhs cex3_rhs = 8" by (simp add: dot_def cex3_rhs_def)
  have "(1 / 10 ^ 8 :: real) ^ 2 \<le> 1" by (rule power_le_one) simp_all
  then have t: "(1 / 10 ^ 8 :: real) ^ 2 \<le> dot cex3_rhs cex3_rhs" unfolding bb by linarith
  have m0: "matvec (self_LHS pf322) (replicate (dim (self_LHS pf322)) 0) = replicate (dim (self_LHS pf322)) 0"
    by (simp add: pf322_fields pf322_matvec)
  have "cg (self_LHS pf322) cex3_rhs (replicate (dim (self_LHS pf322)) 0) (1 / 10 ^ 8) (1 / 10 ^ 8) =
     Inr (map (\<lambda>x. x / (- 4)) cex3_rhs, 0)"
    by (rule cg_eigen[OF len m0 pf322_matvec(2) _ _ _ _ t]) (simp_all add: bb)
  then show ?thesis by (simp add: pf322_fields)
qed

text \<open>
  The claim as stated fails on the grid of 3 by 2 by 2 nodes. Every node of it is a
  first or last node along y and along z, and with three x-nodes the range
  \<open>2..N-3\<close> is empty; the claim leaves every node of \<open>u\<close> at its predictor value.
  The solve changes \<open>u\<close> at the nodes of x-index 1 from 1 to 3/4.
\<close>

theorem C3_correction_counterexample:
  "init grid322 = Inr pf322 \<and>
   map_sum id (\<lambda>(s, u, v, w). (self_p s, u)) (solve cg pf322 cex3_u None None None 1 (1 / 10 ^ 8)) =
     Inr (Some [[[- 1 / 4, - 1 / 4], [- 1 / 4, - 1 / 4]], [[0, 0], [0, 0]], [[1 / 4, 1 / 4], [1 / 4, 1 / 4]]],
          [[[0, 0], [0, 0]], [[3 / 4, 3 / 4], [3 / 4, 3 / 4]], [[0, 0], [0, 0]]]) \<and>
   cex3_u ! 1 ! 0 ! 0 = 1"
proof -
  let ?s1 = "pf322\<lparr>self_u0 := Some cex3_u, self_v0 := Some (zeros3 (3, 2, 2)),
                self_w0 := Some (zeros3 (3, 2, 2)), self_RHS := Some cex3_rhs\<rparr>"
  have sh: "shape3 cex3_u = (3, 2, 2)" by code_simp
  have up: "update_RHS (pf322\<lparr>self_u0 := Some cex3_u,
                             self_v0 := Some (case None of None \<Rightarrow> zeros3 (shape3 cex3_u) | Some v \<Rightarrow> v),
                             self_w0 := Some (case None of None \<Rightarrow> zeros3 (shape3 cex3_u) | Some w \<Rightarrow> w)\<rparr>)
             = Inr ?s1"
    using pf322_update_RHS by (simp add: sh)
  have sv: "cg (self_LHS ?s1) (map (\<lambda>r. r / 1) cex3_rhs) (replicate (self_N ?s1) 0) (1 / 10 ^ 8) (1 / 10 ^ 8)
              = Inr (map (\<lambda>x. x / (- 4)) cex3_rhs, 0)"
    using cg_pf322 by (simp add: pf322_fields)
  have eq: "solve cg pf322 cex3_u None None None 1 (1 / 10 ^ 8) =
              solve_after_cg ?s1 (map (\<lambda>x. x / (- 4)) cex3_rhs, 0) None 1"
    by (rule solve_unfold[where self = pf322 and u_wake = cex3_u and v_wake = None and w_wake = None
          and rhs = cex3_rhs and sv = cg and A = 1, OF up _ sv]) simp
  have fin: "map_sum id (\<lambda>(s, u, v, w). (self_p s, u))
               (solve_after_cg ?s1 (map (\<lambda>x. x / (- 4)) cex3_rhs, 0) None 1) =
     Inr (Some [[[- 1 / 4, - 1 / 4], [- 1 / 4, - 1 / 4]], [[0, 0], [0, 0]], [[1 / 4, 1 / 4], [1 / 4, 1 / 4]]],
          [[[0, 0], [0, 0]], [[3 / 4, 3 / 4], [3 / 4, 3 / 4]], [[0, 0], [0, 0]]])"
    by code_simp
  have u: "cex3_u ! 1 ! 0 ! 0 = 1" by (simp add: cex3_u_def)
  show ?thesis using init_grid322 fin u unfolding eq by simp
qed



lemma fd_spec_zero: "fd_spec h n (\<lambda>_. 0) i = 0"
  by (simp add: fd_spec_def)








end
